theory Spec2Isabelle
  imports Complex_Main "HOL-Library.Sublist"
begin

section \<open>Python strings\<close>

text \<open>
  A Python \<open>str\<close> is modelled as a \<open>string\<close>: the list of the bytes of its UTF-8
  encoding. \<open>needle in hay\<close> is \<open>sublist needle hay\<close> and \<open>s.startswith(p)\<close> is
  \<open>prefix p s\<close> (UTF-8 is self-synchronising, so both agree with the tests on code
  points). \<open>lower\<close> is modelled on ASCII: a byte outside ASCII is left unchanged.
  White space (\<open>strip\<close>, \<open>\s\<close>) is that of \<open>str.isspace\<close>, and the decimal digits
  beyond ASCII (\<open>\d\<close>, \<open>float\<close>) are the table \<open>decimal\<close> of the Unicode database of
  the running Python, a parameter of the functions that read digits.
\<close>

definition lower_char :: "char \<Rightarrow> char" where
  "lower_char c =
     (case map_of (zip ''ABCDEFGHIJKLMNOPQRSTUVWXYZ'' ''abcdefghijklmnopqrstuvwxyz'') c of
        Some d \<Rightarrow> d
      | None \<Rightarrow> c)"

definition lower :: "string \<Rightarrow> string" where
  "lower s = map lower_char s"

text \<open>The characters of a text: each is the bytes of one code point, whose number the
  first byte gives.\<close>

definition utf8_length :: "char \<Rightarrow> nat" where
  "utf8_length c =
     (let n = (of_char c :: nat)
      in if n < 0xC0 then 1 else if n < 0xE0 then 2 else if n < 0xF0 then 3 else 4)"

function chars :: "string \<Rightarrow> string list" where
  "chars [] = []"
| "chars (c # cs) =
     (c # take (utf8_length c - 1) cs) # chars (drop (utf8_length c - 1) cs)"
  by pat_completeness auto
termination
  by (relation "measure length") auto

text \<open>
  \<open>str.isspace\<close>, which is also the class \<open>\s\<close>: U+0009 to U+000D, U+001C to
  U+001F, U+0020, U+0085, U+00A0, U+1680, U+2000 to U+200A, U+2028, U+2029, U+202F,
  U+205F and U+3000.
\<close>

definition is_whitespace :: "string \<Rightarrow> bool" where
  "is_whitespace ch \<longleftrightarrow>
     ch \<in> set [[CHR 0x09], [CHR 0x0A], [CHR 0x0B], [CHR 0x0C], [CHR 0x0D],
                 [CHR 0x1C], [CHR 0x1D], [CHR 0x1E], [CHR 0x1F], [CHR 0x20],
                 [CHR 0xC2, CHR 0x85], [CHR 0xC2, CHR 0xA0], [CHR 0xE1, CHR 0x9A, CHR 0x80],
                 [CHR 0xE2, CHR 0x80, CHR 0x80], [CHR 0xE2, CHR 0x80, CHR 0x81],
                 [CHR 0xE2, CHR 0x80, CHR 0x82], [CHR 0xE2, CHR 0x80, CHR 0x83],
                 [CHR 0xE2, CHR 0x80, CHR 0x84], [CHR 0xE2, CHR 0x80, CHR 0x85],
                 [CHR 0xE2, CHR 0x80, CHR 0x86], [CHR 0xE2, CHR 0x80, CHR 0x87],
                 [CHR 0xE2, CHR 0x80, CHR 0x88], [CHR 0xE2, CHR 0x80, CHR 0x89],
                 [CHR 0xE2, CHR 0x80, CHR 0x8A], [CHR 0xE2, CHR 0x80, CHR 0xA8],
                 [CHR 0xE2, CHR 0x80, CHR 0xA9], [CHR 0xE2, CHR 0x80, CHR 0xAF],
                 [CHR 0xE2, CHR 0x81, CHR 0x9F], [CHR 0xE3, CHR 0x80, CHR 0x80]]"

definition strip :: "string \<Rightarrow> string" where
  "strip s = concat (rev (dropWhile is_whitespace (rev (dropWhile is_whitespace (chars s)))))"

text \<open>The text after the leading characters of a class.\<close>

definition skip :: "(string \<Rightarrow> bool) \<Rightarrow> string \<Rightarrow> string" where
  "skip P s = concat (dropWhile P (chars s))"

section \<open>Doubles\<close>

text \<open>
  \<open>float\<close> gives the double nearest to a number, ties to the even significand;
  \<open>None\<close> when the number is beyond the range of the doubles (where \<open>float\<close> of a text
  gives infinity and \<open>float\<close> of an integer raises).
\<close>

function bit_length :: "int \<Rightarrow> nat" where
  "bit_length n = (if n \<le> 0 then 0 else Suc (bit_length (n div 2)))"
  by pat_completeness auto
termination
  by (relation "measure nat") auto

definition pow2 :: "int \<Rightarrow> rat" where
  "pow2 e = (if 0 \<le> e then 2 ^ nat e else 1 / 2 ^ nat (- e))"

text \<open>For a positive \<open>x\<close>, the \<open>e\<close> with \<open>2 ^ e \<le> x < 2 ^ (e + 1)\<close>.\<close>

definition binary_exponent :: "rat \<Rightarrow> int" where
  "binary_exponent x =
     (case quotient_of x of
        (a, b) \<Rightarrow>
          (let e = int (bit_length a) - int (bit_length b)
           in if x < pow2 e then e - 1 else e))"

definition round_half_even :: "rat \<Rightarrow> int" where
  "round_half_even q =
     (let f = \<lfloor>q\<rfloor>; r = q - of_int f
      in if r < 1 / 2 then f else if 1 / 2 < r then f + 1 else if even f then f else f + 1)"

definition round_double :: "rat \<Rightarrow> rat option" where
  "round_double x =
     (if x = 0 then Some 0
      else
        (let e = max (binary_exponent \<bar>x\<bar>) (- 1022);
             ulp = pow2 (e - 52);
             d = of_int (round_half_even (\<bar>x\<bar> / ulp)) * ulp
         in if pow2 1024 \<le> d then None else Some (sgn x * d)))"

text \<open>\<open>s.split(sep)\<close> for a one-character separator: never the empty list.\<close>

fun split :: "char \<Rightarrow> string \<Rightarrow> string list" where
  "split sep [] = [[]]"
| "split sep (c # cs) =
     (if c = sep then [] # split sep cs
      else (case split sep cs of [] \<Rightarrow> [[c]] | w # ws \<Rightarrow> (c # w) # ws))"

text \<open>\<open>sep.join(xs)\<close>.\<close>

fun join :: "string \<Rightarrow> string list \<Rightarrow> string" where
  "join sep [] = []"
| "join sep [x] = x"
| "join sep (x # y # ys) = x @ sep @ join sep (y # ys)"

text \<open>The bullet U+2022 in UTF-8.\<close>

definition bullet :: string where
  "bullet = [CHR 0xE2, CHR 0x80, CHR 0xA2]"

section \<open>rag_service: the deterministic extraction of the required documents\<close>

text \<open>
  The loop of \<open>_extract_required_documents_from_guideline\<close> over the lines of the
  guideline, with the two variables it updates: \<open>in_requirements_section\<close> and
  \<open>required_docs\<close>.
\<close>

fun extract_loop :: "string list \<Rightarrow> bool \<Rightarrow> string list \<Rightarrow> string list" where
  "extract_loop [] in_requirements_section required_docs = required_docs"
| "extract_loop (line # rest) in_requirements_section required_docs =
     (let line_lower = strip (lower line) in
      if sublist ''required'' line_lower \<and>
         (sublist ''document'' line_lower \<or> sublist ''valid'' line_lower)
      then extract_loop rest True required_docs
      else if in_requirements_section \<and>
              (prefix ''-'' (strip line) \<or> prefix bullet (strip line))
      then (if sublist ''passport'' line_lower \<and>
               ''passport'' \<notin> set (map lower required_docs)
            then extract_loop rest in_requirements_section (required_docs @ [''passport''])
            else extract_loop rest in_requirements_section required_docs)
      else extract_loop rest in_requirements_section required_docs)"

definition extract_required_documents_from_guideline :: "string \<Rightarrow> string list" where
  "extract_required_documents_from_guideline guideline_text =
     (if guideline_text = [] then []
      else
        (let guideline_lower = lower guideline_text;
             required_docs = extract_loop (split CHR 0x0A guideline_text) False []
         in if required_docs = [] \<and> sublist ''passport'' guideline_lower
            then (if sublist ''required'' guideline_lower \<or> sublist ''-'' guideline_text
                  then required_docs @ [''passport'']
                  else required_docs)
            else required_docs))"

section \<open>JSON values and Python dictionaries\<close>

text \<open>
  What \<open>json.loads\<close> returns. A number is its exact value (the source's arithmetic is
  on doubles: the scores below are compared with 0, 50 and 100 only, and the one
  computed score is exact). An object is the list of its items.
\<close>

datatype json =
    JNull
  | JBool bool
  | JNum rat
  | JStr string
  | JArr "json list"
  | JObj "(string \<times> json) list"

type_synonym dict = "string \<rightharpoonup> json"

text \<open>\<open>d.get(key, default)\<close>.\<close>

definition get :: "dict \<Rightarrow> string \<Rightarrow> json \<Rightarrow> json" where
  "get d key dflt = (case d key of Some v \<Rightarrow> v | None \<Rightarrow> dflt)"

text \<open>\<open>bool(x)\<close>: the truth value of a decoded JSON value.\<close>

fun truthy :: "json \<Rightarrow> bool" where
  "truthy JNull = False"
| "truthy (JBool b) = b"
| "truthy (JNum r) = (r \<noteq> 0)"
| "truthy (JStr s) = (s \<noteq> [])"
| "truthy (JArr xs) = (xs \<noteq> [])"
| "truthy (JObj kvs) = (kvs \<noteq> [])"

datatype py_error = AttributeError | TypeError

section \<open>Regular expressions of the source\<close>

text \<open>
  \<open>re.search\<close> tries a pattern at every position, leftmost first, also at the end
  of the text. The matcher receives the text from that position on.
\<close>

fun search :: "(string \<Rightarrow> 'a option) \<Rightarrow> string \<Rightarrow> 'a option" where
  "search m [] = m []"
| "search m (c # cs) = (case m (c # cs) of Some r \<Rightarrow> Some r | None \<Rightarrow> search m cs)"

text \<open>The text before and after the first occurrence of \<open>key\<close>.\<close>

fun find_first :: "string \<Rightarrow> string \<Rightarrow> (string \<times> string) option" where
  "find_first key [] = (if key = [] then Some ([], []) else None)"
| "find_first key (c # cs) =
     (if prefix key (c # cs) then Some ([], drop (length key) (c # cs))
      else map_option (\<lambda>(before, after). (c # before, after)) (find_first key cs))"

definition is_brace :: "char \<Rightarrow> bool" where
  "is_brace c \<longleftrightarrow> c = CHR ''{'' \<or> c = CHR ''}''"

definition quoted_key :: string where
  "quoted_key = [CHR 0x22] @ ''is_compliant'' @ [CHR 0x22]"

text \<open>
  Pattern 1, \<open>\{[^{}]*"is_compliant"[^{}]*\}\<close>, at one position: an opening brace,
  a run without braces that holds the quoted key, and a closing brace right after it.
\<close>

definition match_simple_json :: "string \<Rightarrow> string option" where
  "match_simple_json s =
     (case s of
        [] \<Rightarrow> None
      | c # cs \<Rightarrow>
          if c = CHR ''{'' then
            (let inner = takeWhile (\<lambda>x. \<not> is_brace x) cs;
                 rest = dropWhile (\<lambda>x. \<not> is_brace x) cs
             in if sublist quoted_key inner \<and> prefix ''}'' rest
                then Some (c # inner @ ''}'') else None)
          else None)"

text \<open>
  Pattern 2, \<open>\{.*?"is_compliant".*?\}\<close> with DOTALL, at one position: an opening
  brace, the shortest text up to the quoted key, the shortest text up to a closing brace.
\<close>

definition match_json_with_key :: "string \<Rightarrow> string option" where
  "match_json_with_key s =
     (case s of
        [] \<Rightarrow> None
      | c # cs \<Rightarrow>
          if c = CHR ''{'' then
            (case find_first quoted_key cs of
               None \<Rightarrow> None
             | Some (before, after) \<Rightarrow>
                 if CHR ''}'' \<in> set after
                 then Some (c # before @ quoted_key @ takeWhile (\<lambda>x. x \<noteq> CHR ''}'') after @ ''}'')
                 else None)
          else None)"

text \<open>Pattern 3, \<open>\{.*?\}\<close> with DOTALL: a brace and the shortest text up to a closing one.\<close>

definition match_any_json :: "string \<Rightarrow> string option" where
  "match_any_json s =
     (case s of
        [] \<Rightarrow> None
      | c # cs \<Rightarrow>
          if c = CHR ''{'' \<and> CHR ''}'' \<in> set cs
          then Some (c # takeWhile (\<lambda>x. x \<noteq> CHR ''}'') cs @ ''}'')
          else None)"

definition json_patterns :: "(string \<Rightarrow> string option) list" where
  "json_patterns = [match_simple_json, match_json_with_key, match_any_json]"

text \<open>
  The value of a character as a decimal digit: the class \<open>\d\<close>, and the digits that
  \<open>float\<close> reads. For a character beyond ASCII the table \<open>decimal\<close> gives it.
\<close>

definition decimal_value :: "(string \<Rightarrow> nat option) \<Rightarrow> string \<Rightarrow> nat option" where
  "decimal_value decimal ch =
     (case ch of
        [] \<Rightarrow> None
      | [c] \<Rightarrow> map_of (zip ''0123456789'' [0, 1, 2, 3, 4, 5, 6, 7, 8, 9]) c
      | _ \<Rightarrow> decimal ch)"

definition is_decimal :: "(string \<Rightarrow> nat option) \<Rightarrow> string \<Rightarrow> bool" where
  "is_decimal decimal ch \<longleftrightarrow> decimal_value decimal ch \<noteq> None"

definition digits_value :: "(string \<Rightarrow> nat option) \<Rightarrow> string list \<Rightarrow> nat" where
  "digits_value decimal ds =
     foldl (\<lambda>n ch. 10 * n + (case decimal_value decimal ch of Some d \<Rightarrow> d | None \<Rightarrow> 0)) 0 ds"

text \<open>The number that the digits \<open>ds\<close> and the digits \<open>fs\<close> of the fraction write.\<close>

definition group_number :: "(string \<Rightarrow> nat option) \<Rightarrow> string list \<Rightarrow> string list \<Rightarrow> rat" where
  "group_number decimal ds fs =
     of_nat (digits_value decimal ds) + of_nat (digits_value decimal fs) / 10 ^ length fs"

text \<open>
  The group \<open>(\d+(?:\.\d+)?)\<close> at the start of a text, greedy: the number it writes
  and the rest of the text. In the four score patterns a shorter match of the group never
  lets the rest of the pattern succeed.
\<close>

definition match_number :: "(string \<Rightarrow> nat option) \<Rightarrow> string \<Rightarrow> (rat \<times> string) option" where
  "match_number decimal s =
     (let ds = takeWhile (is_decimal decimal) (chars s);
          r = dropWhile (is_decimal decimal) (chars s)
      in if ds = [] then None
         else (case r of
                 [] \<Rightarrow> Some (group_number decimal ds [], [])
               | d # r' \<Rightarrow>
                   if d = ''.'' \<and> takeWhile (is_decimal decimal) r' \<noteq> []
                   then Some (group_number decimal ds (takeWhile (is_decimal decimal) r'),
                              concat (dropWhile (is_decimal decimal) r'))
                   else Some (group_number decimal ds [], concat r)))"

text \<open>The class \<open>["\s:]\<close>.\<close>

definition is_sep :: "string \<Rightarrow> bool" where
  "is_sep ch \<longleftrightarrow> ch = [CHR 0x22] \<or> is_whitespace ch \<or> ch = '':''"

text \<open>After a literal \<open>lit\<close>, what \<open>m\<close> finds in the rest.\<close>

definition after_literal :: "string \<Rightarrow> (string \<Rightarrow> 'a option) \<Rightarrow> string \<Rightarrow> 'a option" where
  "after_literal lit m s = (if prefix lit s then m (drop (length lit) s) else None)"

text \<open>The score patterns give the number that their group writes.\<close>

text \<open>\<open>"compliance_score"\s*:\s*(\d+(?:\.\d+)?)\<close>\<close>

definition score_pattern1 :: "(string \<Rightarrow> nat option) \<Rightarrow> string \<Rightarrow> rat option" where
  "score_pattern1 decimal =
     after_literal ([CHR 0x22] @ ''compliance_score'' @ [CHR 0x22])
       (\<lambda>s. after_literal '':''
              (\<lambda>t. map_option fst (match_number decimal (skip is_whitespace t)))
              (skip is_whitespace s))"

text \<open>\<open>compliance_score["\s:]*(\d+(?:\.\d+)?)\<close>\<close>

definition score_pattern2 :: "(string \<Rightarrow> nat option) \<Rightarrow> string \<Rightarrow> rat option" where
  "score_pattern2 decimal =
     after_literal ''compliance_score''
       (\<lambda>s. map_option fst (match_number decimal (skip is_sep s)))"

text \<open>\<open>score["\s:]*(\d+(?:\.\d+)?)\<close>\<close>

definition score_pattern3 :: "(string \<Rightarrow> nat option) \<Rightarrow> string \<Rightarrow> rat option" where
  "score_pattern3 decimal =
     after_literal ''score'' (\<lambda>s. map_option fst (match_number decimal (skip is_sep s)))"

text \<open>\<open>(\d+(?:\.\d+)?)\s*%\<close>\<close>

definition score_pattern4 :: "(string \<Rightarrow> nat option) \<Rightarrow> string \<Rightarrow> rat option" where
  "score_pattern4 decimal s =
     (case match_number decimal s of
        None \<Rightarrow> None
      | Some (g, r) \<Rightarrow> if prefix ''%'' (skip is_whitespace r) then Some g else None)"

definition score_patterns :: "(string \<Rightarrow> nat option) \<Rightarrow> (string \<Rightarrow> rat option) list" where
  "score_patterns decimal =
     [score_pattern1 decimal, score_pattern2 decimal, score_pattern3 decimal,
      score_pattern4 decimal]"

text \<open>\<open>is_compliant["\s:]*true\<close> and \<open>is_compliant["\s:]*false\<close>\<close>

definition flag_pattern :: "string \<Rightarrow> string \<Rightarrow> unit option" where
  "flag_pattern word =
     after_literal ''is_compliant''
       (\<lambda>s. if prefix word (skip is_sep s) then Some () else None)"

section \<open>rag_service: parsing the judgment\<close>

text \<open>
  The first loop of \<open>_parse_compliance_analysis\<close>. \<open>loads\<close> is \<open>json.loads\<close>,
  \<open>None\<close> when it raises. A decoded value that is no object, or an object without
  the key, lets the loop go on to the next pattern.
\<close>

definition coerce_flag :: "json \<Rightarrow> json" where
  "coerce_flag v =
     (case v of
        JBool b \<Rightarrow> JBool b
      | JStr s \<Rightarrow> JBool (lower s \<in> set [''true'', ''yes'', ''1'', ''compliant''])
      | _ \<Rightarrow> JBool (truthy v))"

fun parse_json_stage ::
  "(string \<Rightarrow> json option) \<Rightarrow> (string \<Rightarrow> string option) list \<Rightarrow> string \<Rightarrow> dict option" where
  "parse_json_stage loads [] analysis_text = None"
| "parse_json_stage loads (pattern # patterns) analysis_text =
     (case search pattern analysis_text of
        None \<Rightarrow> parse_json_stage loads patterns analysis_text
      | Some json_match \<Rightarrow>
          (case loads json_match of
             Some (JObj parsed) \<Rightarrow>
               (case map_of parsed ''is_compliant'' of
                  Some v \<Rightarrow> Some ((map_of parsed)(''is_compliant'' \<mapsto> coerce_flag v))
                | None \<Rightarrow> parse_json_stage loads patterns analysis_text)
           | _ \<Rightarrow> parse_json_stage loads patterns analysis_text))"

definition negative_indicators :: "string list" where
  "negative_indicators =
     [''not compliant'', ''non-compliant'', ''non compliant'',
      ''missing'', ''incomplete'', ''insufficient'',
      ''does not meet'', ''doesn't meet'', ''fails to'',
      ''rejected'', ''rejection'', ''cannot be approved'']"

definition positive_indicators :: "string list" where
  "positive_indicators =
     [''is compliant'', ''fully compliant'', ''meets requirements'',
      ''all required'', ''complete'', ''sufficient'',
      ''approved'', ''acceptable'', ''valid'']"

definition has_negative :: "string \<Rightarrow> bool" where
  "has_negative text_lower = list_ex (\<lambda>indicator. sublist indicator text_lower) negative_indicators"

definition has_positive :: "string \<Rightarrow> bool" where
  "has_positive text_lower = list_ex (\<lambda>indicator. sublist indicator text_lower) positive_indicators"

definition fallback_is_compliant :: "string \<Rightarrow> bool" where
  "fallback_is_compliant text_lower =
     (if has_negative text_lower \<and> \<not> has_positive text_lower then False
         else if has_positive text_lower \<and> \<not> has_negative text_lower then True
         else if sublist ''is_compliant'' text_lower \<or> sublist quoted_key text_lower then
           (if search (flag_pattern ''true'') text_lower \<noteq> None then True
            else if search (flag_pattern ''false'') text_lower \<noteq> None then False
            else False)
         else
           (if sublist ''not compliant'' text_lower \<or> sublist ''non-compliant'' text_lower
            then False
            else if sublist ''compliant'' text_lower then True
            else False))"

text \<open>A pattern whose leftmost match is, as a double, a score between 0 and 100.\<close>

definition in_range_match :: "string \<Rightarrow> (string \<Rightarrow> rat option) \<Rightarrow> bool" where
  "in_range_match text_lower pattern =
     (case search pattern text_lower of
        None \<Rightarrow> False
      | Some g \<Rightarrow>
          (case round_double g of
             None \<Rightarrow> False
           | Some score \<Rightarrow> 0 \<le> score \<and> score \<le> 100))"

definition extractable_score :: "(string \<Rightarrow> nat option) \<Rightarrow> string \<Rightarrow> bool" where
  "extractable_score decimal text_lower =
     list_ex (in_range_match text_lower) (score_patterns decimal)"

text \<open>
  The loop over \<open>score_patterns\<close>: the first pattern whose leftmost match is, after
  \<open>float\<close>, a score between 0 and 100 gives the score; a pattern that does not match,
  or whose match is out of range, is passed over.
\<close>

fun extract_score :: "(string \<Rightarrow> rat option) list \<Rightarrow> string \<Rightarrow> rat \<Rightarrow> rat" where
  "extract_score [] text_lower compliance_score = compliance_score"
| "extract_score (pattern # patterns) text_lower compliance_score =
     (case search pattern text_lower of
        None \<Rightarrow> extract_score patterns text_lower compliance_score
      | Some g \<Rightarrow>
          (case round_double g of
             None \<Rightarrow> extract_score patterns text_lower compliance_score
           | Some score \<Rightarrow>
               if 0 \<le> score \<and> score \<le> 100 then score
               else extract_score patterns text_lower compliance_score))"

definition adjust_score :: "bool \<Rightarrow> rat \<Rightarrow> rat" where
  "adjust_score is_compliant compliance_score =
     (if is_compliant \<and> compliance_score < 50 then 100
      else if \<not> is_compliant \<and> compliance_score > 50 then 30
      else compliance_score)"

definition parse_fallback :: "(string \<Rightarrow> nat option) \<Rightarrow> string \<Rightarrow> dict" where
  "parse_fallback decimal analysis_text =
     (let text_lower = lower analysis_text;
          is_compliant = fallback_is_compliant text_lower;
          compliance_score =
            adjust_score is_compliant (extract_score (score_patterns decimal) text_lower 50)
      in map_of
           [(''is_compliant'', JBool is_compliant),
            (''compliance_score'', JNum compliance_score),
            (''present_documents'', JArr []),
            (''missing_documents'', JArr []),
            (''required_documents'', JArr []),
            (''issues'', JArr [JStr analysis_text])])"

definition parse_compliance_analysis ::
  "(string \<Rightarrow> nat option) \<Rightarrow> (string \<Rightarrow> json option) \<Rightarrow> string \<Rightarrow> dict" where
  "parse_compliance_analysis decimal loads analysis_text =
     (case parse_json_stage loads json_patterns analysis_text of
        Some parsed \<Rightarrow> parsed
      | None \<Rightarrow> parse_fallback decimal analysis_text)"

section \<open>rag_service: the verdict\<close>

text \<open>One result of \<open>search_similar\<close>: the keys \<open>id\<close> and \<open>document\<close> that the
  caller reads.\<close>

record guideline_hit =
  hit_id :: string
  document :: string

definition passport_keywords :: "string list" where
  "passport_keywords =
     [''passport'', ''passport number'', ''passport no'', ''passport #'',
      ''passport id'', ''passport document'', ''travel document'',
      ''passport page'', ''passport copy'', ''passport details'']"

text \<open>
  \<open>[p.lower() for p in present_docs]\<close> on whatever the judgment put under
  \<open>present_documents\<close>: a list is iterated (an element that is no string has no
  \<open>lower\<close>), a string gives its characters, an object its keys, anything else is not
  iterable.
\<close>

fun lower_all :: "json list \<Rightarrow> py_error + string list" where
  "lower_all [] = Inr []"
| "lower_all (JStr p # ps) =
     (case lower_all ps of Inl e \<Rightarrow> Inl e | Inr ls \<Rightarrow> Inr (lower p # ls))"
| "lower_all (_ # ps) = Inl AttributeError"

fun lowered_items :: "json \<Rightarrow> py_error + string list" where
  "lowered_items (JArr ps) = lower_all ps"
| "lowered_items (JStr s) = Inr (map (\<lambda>c. lower [c]) s)"
| "lowered_items (JObj kvs) = Inr (map (\<lambda>kv. lower (fst kv)) kvs)"
| "lowered_items _ = Inl TypeError"

text \<open>\<open>present_docs.append("passport")\<close>: only a list has \<open>append\<close>.\<close>

fun append_passport :: "json \<Rightarrow> py_error + json" where
  "append_passport (JArr ps) = Inr (JArr (ps @ [JStr ''passport'']))"
| "append_passport _ = Inl AttributeError"

definition has_passport_keywords :: "string \<Rightarrow> bool" where
  "has_passport_keywords combined_text_lower =
     list_ex (\<lambda>keyword. sublist keyword combined_text_lower) passport_keywords"

text \<open>The keyword fallback on \<open>present_docs\<close>.\<close>

definition detect_passport :: "string list \<Rightarrow> string \<Rightarrow> json \<Rightarrow> py_error + json" where
  "detect_passport guideline_required_docs combined_text_lower present_docs =
     (if ''passport'' \<in> set (map lower guideline_required_docs) then
        (if has_passport_keywords combined_text_lower then
           (case lowered_items present_docs of
              Inl e \<Rightarrow> Inl e
            | Inr ls \<Rightarrow>
                if ''passport'' \<notin> set ls then append_passport present_docs
                else Inr present_docs)
         else Inr present_docs)
      else Inr present_docs)"

text \<open>The score of the override branch.\<close>

definition override_score :: "nat \<Rightarrow> nat \<Rightarrow> rat" where
  "override_score total_required missing_count =
     (if missing_count = 0 then 100
      else if total_required > 0
      then max 0 ((of_int (int total_required - int missing_count) / of_nat total_required) * 100)
      else 0)"

text \<open>The branch \<open>if guideline_required_docs:\<close> of \<open>compare_with_guidelines\<close>.\<close>

definition override_with_guideline ::
  "string list \<Rightarrow> string \<Rightarrow> string list \<Rightarrow> dict \<Rightarrow> py_error + dict" where
  "override_with_guideline guideline_required_docs student_text student_documents compliance_data =
     (let combined_text_lower = lower (student_text @ '' '' @ join '' '' student_documents)
      in case detect_passport guideline_required_docs combined_text_lower
                (get compliance_data ''present_documents'' (JArr [])) of
           Inl e \<Rightarrow> Inl e
         | Inr present_docs \<Rightarrow>
             (case lowered_items present_docs of
                Inl e \<Rightarrow> Inl e
              | Inr ls \<Rightarrow>
                  (let missing = filter (\<lambda>doc. lower doc \<notin> set ls) guideline_required_docs
                   in Inr (compliance_data
                        (''required_documents'' \<mapsto> JArr (map JStr guideline_required_docs),
                         ''present_documents'' \<mapsto> present_docs,
                         ''missing_documents'' \<mapsto> JArr (map JStr missing),
                         ''is_compliant'' \<mapsto> JBool (length missing = 0),
                         ''compliance_score'' \<mapsto>
                            JNum (override_score (length guideline_required_docs) (length missing)))))))"

text \<open>
  \<open>compare_with_guidelines\<close>, from the results of its two collaborators: the passages
  \<open>relevant_guidelines\<close> that the retrieval returned and the text \<open>analysis_text\<close>
  that the judgment returned. The result is the dictionary it returns, or the error it
  raises.
\<close>

text \<open>\<open>guideline_texts[0] if guideline_texts else ""\<close>\<close>

definition first_guideline_text :: "guideline_hit list \<Rightarrow> string" where
  "first_guideline_text relevant_guidelines =
     (case map document relevant_guidelines of [] \<Rightarrow> [] | g # _ \<Rightarrow> g)"

definition compare_with_guidelines ::
  "(string \<Rightarrow> nat option) \<Rightarrow> (string \<Rightarrow> json option) \<Rightarrow> string \<Rightarrow> string list
     \<Rightarrow> guideline_hit list \<Rightarrow> string \<Rightarrow> py_error + dict" where
  "compare_with_guidelines decimal loads student_text student_documents relevant_guidelines
       analysis_text =
     (let compliance_data = parse_compliance_analysis decimal loads analysis_text;
          guideline_required_docs =
            extract_required_documents_from_guideline (first_guideline_text relevant_guidelines)
      in case (if guideline_required_docs \<noteq> []
               then override_with_guideline guideline_required_docs student_text
                      student_documents compliance_data
               else Inr compliance_data) of
           Inl e \<Rightarrow> Inl e
         | Inr compliance_data \<Rightarrow>
             Inr (map_of
               [(''is_compliant'', get compliance_data ''is_compliant'' (JBool False)),
                (''compliance_score'', get compliance_data ''compliance_score'' (JNum 0)),
                (''present_documents'', get compliance_data ''present_documents'' (JArr [])),
                (''missing_documents'', get compliance_data ''missing_documents'' (JArr [])),
                (''required_documents'', get compliance_data ''required_documents'' (JArr [])),
                (''issues'', get compliance_data ''issues'' (JArr [])),
                (''analysis'', JStr analysis_text),
                (''relevant_guidelines'', JArr (map (\<lambda>doc. JStr (hit_id doc)) relevant_guidelines))]))"

section \<open>llm_service: the categorization\<close>

datatype request_type =
    RESIDENCE_PERMIT_EXTENSION
  | RESIDENCE_PERMIT_NEW
  | VISA_EXTENSION
  | TEMPORARY_VISA
  | WORK_PERMIT
  | OTHER

definition category_map :: "string \<rightharpoonup> request_type" where
  "category_map =
     map_of
       [(''residence_permit_extension'', RESIDENCE_PERMIT_EXTENSION),
        (''residence_permit_new'', RESIDENCE_PERMIT_NEW),
        (''visa_extension'', VISA_EXTENSION),
        (''temporary_visa'', TEMPORARY_VISA),
        (''work_permit'', WORK_PERMIT),
        (''other'', OTHER)]"

record categorization =
  category :: request_type
  confidence :: rat
  explanation :: json
  key_info :: json
  raw_response :: string

text \<open>\<open>\{.*\}\<close> with DOTALL, greedy: from a brace to the last closing brace.\<close>

definition match_greedy_json :: "string \<Rightarrow> string option" where
  "match_greedy_json s =
     (case s of
        [] \<Rightarrow> None
      | c # cs \<Rightarrow>
          if c = CHR ''{'' \<and> CHR ''}'' \<in> set cs
          then Some (c # rev (dropWhile (\<lambda>x. x \<noteq> CHR ''}'') (rev cs)))
          else None)"

text \<open>
  \<open>category_map.get(category, RequestType.OTHER)\<close>: a list or an object is not
  hashable and raises.
\<close>

fun lookup_category :: "json \<Rightarrow> py_error + request_type" where
  "lookup_category (JStr s) = Inr (case category_map s of Some t \<Rightarrow> t | None \<Rightarrow> OTHER)"
| "lookup_category (JArr xs) = Inl TypeError"
| "lookup_category (JObj kvs) = Inl TypeError"
| "lookup_category _ = Inr OTHER"

text \<open>
  \<open>float(x)\<close> on a decoded value, \<open>None\<close> when it raises; \<open>to_float\<close> is
  \<open>float\<close> on a string.
\<close>

fun py_float :: "(string \<Rightarrow> rat option) \<Rightarrow> json \<Rightarrow> rat option" where
  "py_float to_float (JNum r) = round_double r"
| "py_float to_float (JBool b) = Some (if b then 1 else 0)"
| "py_float to_float (JStr s) = to_float s"
| "py_float to_float _ = None"

definition categorization_fallback :: "string \<Rightarrow> categorization" where
  "categorization_fallback response_text =
     \<lparr>category = OTHER, confidence = 0,
      explanation = JStr ''Could not parse LLM response'', key_info = JStr [],
      raw_response = response_text\<rparr>"

text \<open>
  \<open>_parse_categorization\<close>. Every exception of the \<open>try\<close> block (the decoder's, a
  decoded value that is no object, a category that cannot be hashed, a confidence that
  is no number) ends in the fallback.
\<close>

definition parse_categorization ::
  "(string \<Rightarrow> json option) \<Rightarrow> (string \<Rightarrow> rat option) \<Rightarrow> string \<Rightarrow> categorization" where
  "parse_categorization loads to_float response_text =
     (case search match_greedy_json response_text of
        None \<Rightarrow> categorization_fallback response_text
      | Some json_match \<Rightarrow>
          (case loads json_match of
             Some (JObj parsed) \<Rightarrow>
               (case lookup_category (get (map_of parsed) ''category'' (JStr ''other'')) of
                  Inl e \<Rightarrow> categorization_fallback response_text
                | Inr cat \<Rightarrow>
                    (case py_float to_float (get (map_of parsed) ''confidence'' (JNum 0)) of
                       None \<Rightarrow> categorization_fallback response_text
                     | Some conf \<Rightarrow>
                         \<lparr>category = cat, confidence = conf,
                          explanation = get (map_of parsed) ''explanation'' (JStr []),
                          key_info = get (map_of parsed) ''key_info'' (JStr []),
                          raw_response = response_text\<rparr>))
           | _ \<Rightarrow> categorization_fallback response_text))"

text \<open>\<open>categorize_request\<close> returns what \<open>_parse_categorization\<close> makes of the
  judgment's response.\<close>

definition categorize_request ::
  "(string \<Rightarrow> json option) \<Rightarrow> (string \<Rightarrow> rat option) \<Rightarrow> string \<Rightarrow> categorization" where
  "categorize_request loads to_float response_content =
     parse_categorization loads to_float response_content"

section \<open>models: the tables\<close>

text \<open>
  A point in time (a \<open>datetime\<close>) is the number of seconds since a fixed origin. A
  table is the list of its rows in the order in which the database returns them to a
  query. Neither the source nor the schema fixes that order: it need not be the order of
  insertion, which the keys of the rows record. \<open>ORDER BY\<close> sorts the rows by the
  column and leaves rows of the same value in the order of the list, so that the
  database's choice among them is the order of the list. The definitions describe the
  runs in which the database accepts every write. A column that the source fills with
  \<open>str(value)\<close> holds the value here.
\<close>

type_synonym time = rat

datatype request_status =
    PENDING
  | PROCESSING
  | CATEGORIZED
  | APPROVED
  | REJECTED
  | APPOINTMENT_SCHEDULED
  | COMPLETED

record student =
  student_pk :: nat
  email :: string
  name :: string

record request =
  request_id :: nat
  student_id :: nat
  email_subject :: string
  email_body :: string
  request_type :: "request_type option"
  status :: request_status
  llm_category :: "string option"
  llm_confidence :: rat
  llm_analysis :: "string option"
  is_compliant :: json
  compliance_score :: json
  missing_documents :: "json option"
  required_documents :: "json option"
  appointment_id :: "nat option"
  created_at :: "time option"
  processed_at :: "time option"

record stored_document =
  document_request_id :: nat
  filename :: string
  file_path :: string
  file_type :: string
  extracted_text :: string
  vector_id :: "string option"

record appointment =
  appointment_pk :: nat
  appointment_student_id :: nat
  appointment_request_id :: nat
  appointment_date :: time
  appointment_time :: string
  appointment_status :: string
  location :: string
  appointment_required_documents :: json
  appointment_notes :: string

record available_slot =
  slot_id :: nat
  slot_date :: time
  slot_time :: string
  is_available :: bool
  max_capacity :: int
  current_bookings :: int

record database =
  students :: "student list"
  requests :: "request list"
  documents :: "stored_document list"
  appointments :: "appointment list"
  slots :: "available_slot list"

text \<open>The key that the database gives to a new row.\<close>

definition next_id :: "nat list \<Rightarrow> nat" where
  "next_id ids = Suc (fold max ids 0)"

section \<open>appointment_service\<close>

text \<open>\<open>str(n)\<close> for a key: its decimal digits.\<close>

fun str_nat :: "nat \<Rightarrow> string" where
  "str_nat n =
     (if n < 10 then [''0123456789'' ! n]
      else str_nat (n div 10) @ [''0123456789'' ! (n mod 10)])"

text \<open>The filter of \<open>get_next_available_slot\<close>.\<close>

definition slot_filter :: "time \<Rightarrow> available_slot \<Rightarrow> bool" where
  "slot_filter now s \<longleftrightarrow>
     is_available s = True \<and> slot_date s > now \<and> current_bookings s < max_capacity s"

text \<open>\<open>now\<close> is what \<open>datetime.now(timezone.utc)\<close> returns in the call.\<close>

definition get_next_available_slot :: "time \<Rightarrow> database \<Rightarrow> available_slot option" where
  "get_next_available_slot now db =
     (case sort_key slot_date (filter (slot_filter now) (slots db)) of
        [] \<Rightarrow> None
      | slot # _ \<Rightarrow> Some slot)"

text \<open>Writing a changed slot back: \<open>UPDATE available_slots ... WHERE id = slot.id\<close>.\<close>

definition save_slot :: "available_slot \<Rightarrow> available_slot list \<Rightarrow> available_slot list" where
  "save_slot slot rows = map (\<lambda>row. if slot_id row = slot_id slot then slot else row) rows"

definition book :: "available_slot \<Rightarrow> available_slot" where
  "book slot =
     (let slot = slot\<lparr>current_bookings := current_bookings slot + 1\<rparr>
      in if current_bookings slot \<ge> max_capacity slot then slot\<lparr>is_available := False\<rparr>
         else slot)"

text \<open>
  The lines of \<open>schedule_appointment\<close> after the query, for the slot object that the
  session holds and the database as it is at the commit: the commit writes the slot as the
  session has changed it and inserts the appointment.
\<close>

definition commit_appointment ::
  "nat \<Rightarrow> nat \<Rightarrow> json \<Rightarrow> available_slot option \<Rightarrow> database \<Rightarrow> appointment option \<times> database" where
  "commit_appointment sid rid required_docs queried db =
     (case queried of
        None \<Rightarrow> (None, db)
      | Some slot \<Rightarrow>
          (let appointment =
                 \<lparr>appointment_pk = next_id (map appointment_pk (appointments db)),
                  appointment_student_id = sid,
                  appointment_request_id = rid,
                  appointment_date = slot_date slot,
                  appointment_time = slot_time slot,
                  appointment_status = ''scheduled'',
                  location = ''Immigration Office - Main Building'',
                  appointment_required_documents = required_docs,
                  appointment_notes = ''Automated appointment for request #'' @ str_nat rid\<rparr>
           in (Some appointment,
               db\<lparr>slots := save_slot (book slot) (slots db),
                  appointments := appointments db @ [appointment]\<rparr>)))"

definition schedule_appointment ::
  "time \<Rightarrow> nat \<Rightarrow> nat \<Rightarrow> json \<Rightarrow> database \<Rightarrow> appointment option \<times> database" where
  "schedule_appointment now sid rid required_docs db =
     commit_appointment sid rid required_docs (get_next_available_slot now db) db"

text \<open>
  \<open>create_available_slots\<close>: for each day and each time of the day, a slot with
  capacity 1 and no booking, unless one with that date and time exists.
\<close>

definition time_slots :: "string list" where
  "time_slots = [''09:00'', ''10:30'', ''12:00'', ''14:00'', ''15:30'']"

definition create_slot :: "time \<Rightarrow> string \<Rightarrow> available_slot list \<Rightarrow> available_slot list" where
  "create_slot date time_slot rows =
     (case find (\<lambda>row. slot_date row = date \<and> slot_time row = time_slot) rows of
        Some existing \<Rightarrow> rows
      | None \<Rightarrow>
          rows @ [\<lparr>slot_id = next_id (map slot_id rows), slot_date = date,
                   slot_time = time_slot, is_available = True, max_capacity = 1,
                   current_bookings = 0\<rparr>])"

definition create_available_slots :: "time \<Rightarrow> nat \<Rightarrow> nat \<Rightarrow> database \<Rightarrow> database" where
  "create_available_slots start_date num_days slots_per_day db =
     db\<lparr>slots :=
        fold (\<lambda>day rows.
               fold (create_slot (start_date + 86400 * of_nat day))
                 (take slots_per_day time_slots) rows)
          [0 ..< num_days] (slots db)\<rparr>"

text \<open>
  A sequence of calls of \<open>schedule_appointment\<close>, each with its time, student, request
  and documents: what the calls return, and the database after the last one.
\<close>

type_synonym attempt = "time \<times> nat \<times> nat \<times> json"

fun schedule_all :: "attempt list \<Rightarrow> database \<Rightarrow> appointment option list \<times> database" where
  "schedule_all [] db = ([], db)"
| "schedule_all ((now, sid, rid, docs) # rest) db =
     (case schedule_appointment now sid rid docs db of
        (result, db') \<Rightarrow>
          (case schedule_all rest db' of (results, db'') \<Rightarrow> (result # results, db'')))"

text \<open>
  Two calls of \<open>schedule_appointment\<close> by two tasks. Each task has its own session and
  the source takes no lock, so the calls can run as here: both sessions make the query
  before either commits.
\<close>

fun schedule_interleaved ::
  "attempt \<Rightarrow> attempt \<Rightarrow> database \<Rightarrow> appointment option \<times> appointment option \<times> database" where
  "schedule_interleaved (now1, sid1, rid1, docs1) (now2, sid2, rid2, docs2) db =
     (let slot1 = get_next_available_slot now1 db;
          slot2 = get_next_available_slot now2 db;
          (result1, db1) = commit_appointment sid1 rid1 docs1 slot1 db;
          (result2, db2) = commit_appointment sid2 rid2 docs2 slot2 db1
      in (result1, result2, db2))"

text \<open>The slots that the calls of such a sequence book, by their keys.\<close>

fun booked_slots :: "attempt list \<Rightarrow> database \<Rightarrow> nat list" where
  "booked_slots [] db = []"
| "booked_slots ((now, sid, rid, docs) # rest) db =
     (case get_next_available_slot now db of
        None \<Rightarrow> booked_slots rest (snd (schedule_appointment now sid rid docs db))
      | Some slot \<Rightarrow>
          slot_id slot # booked_slots rest (snd (schedule_appointment now sid rid docs db)))"

text \<open>
  The state of the pool that the two writers of the table keep: keys are unique, the
  bookings of a slot lie between 0 and its capacity, and \<open>is_available\<close> says whether
  a place is left.
\<close>

definition flag_derived :: "available_slot \<Rightarrow> bool" where
  "flag_derived s \<longleftrightarrow> (is_available s \<longleftrightarrow> current_bookings s < max_capacity s)"

definition slot_ok :: "available_slot \<Rightarrow> bool" where
  "slot_ok s \<longleftrightarrow>
     0 \<le> current_bookings s \<and> current_bookings s \<le> max_capacity s \<and> flag_derived s"

definition pool_ok :: "available_slot list \<Rightarrow> bool" where
  "pool_ok rows \<longleftrightarrow> distinct (map slot_id rows) \<and> list_all slot_ok rows"

text \<open>A slot with a place left and a date after \<open>now\<close>.\<close>

definition free_slot :: "time \<Rightarrow> available_slot \<Rightarrow> bool" where
  "free_slot now s \<longleftrightarrow> current_bookings s < max_capacity s \<and> now < slot_date s"

text \<open>The places left in the slots whose date is after \<open>now\<close>.\<close>

definition remaining_capacity :: "time \<Rightarrow> available_slot list \<Rightarrow> nat" where
  "remaining_capacity now rows =
     sum_list (map (\<lambda>s. if now < slot_date s then nat (max_capacity s - current_bookings s) else 0) rows)"

text \<open>A time at which the same slots lie in the future as at \<open>now\<close>.\<close>

definition same_future :: "time \<Rightarrow> available_slot list \<Rightarrow> time \<Rightarrow> bool" where
  "same_future now rows t \<longleftrightarrow> list_all (\<lambda>s. (t < slot_date s) = (now < slot_date s)) rows"

section \<open>email_worker: the pipeline of one message\<close>

text \<open>
  The collaborators of \<open>process_email_task\<close> are given by what they return in the
  run. For an attachment: whether the file exists, and what the extraction of its text
  and the indexing of the text give.
\<close>

datatype extraction_outcome =
    ExtractionFails string
  | IndexingFails string string
  | Processed string string

record attachment =
  content_type :: string
  attachment_filename :: string
  attachment_file_path :: "string option"
  path_exists :: bool
  outcome :: extraction_outcome

record email_data =
  subject :: string
  sender :: string
  body :: string
  attachments :: "attachment list"

text \<open>
  The clock at the four places where the run reads it, the error raised when the
  services are constructed (if any), and the results of the retrieval and of the two
  judgments, \<open>Inl\<close> the text of the error when the call raises. \<open>utc_offset\<close> is the
  offset from UTC of the zone in which the database session returns a stored time.
\<close>

record environment =
  decimal_digits :: "string \<Rightarrow> nat option"
  json_loads :: "string \<Rightarrow> json option"
  float_of_string :: "string \<Rightarrow> rat option"
  utc_offset :: "time \<Rightarrow> time"
  dedup_clock :: time
  insert_clock :: time
  processed_clock :: time
  allocation_clock :: time
  services_error :: "string option"
  retrieval :: "string + guideline_hit list"
  compliance_judgment :: "string + string"
  categorization_judgment :: "string + string"

datatype task_result =
    Skipped nat
  | Success nat string bool
  | Error string

text \<open>\<open>str(e)\<close> is modelled by the class of the error.\<close>

fun str_error :: "py_error \<Rightarrow> string" where
  "str_error AttributeError = ''AttributeError''"
| "str_error TypeError = ''TypeError''"

fun str_request_type :: "request_type \<Rightarrow> string" where
  "str_request_type RESIDENCE_PERMIT_EXTENSION = ''RequestType.RESIDENCE_PERMIT_EXTENSION''"
| "str_request_type RESIDENCE_PERMIT_NEW = ''RequestType.RESIDENCE_PERMIT_NEW''"
| "str_request_type VISA_EXTENSION = ''RequestType.VISA_EXTENSION''"
| "str_request_type TEMPORARY_VISA = ''RequestType.TEMPORARY_VISA''"
| "str_request_type WORK_PERMIT = ''RequestType.WORK_PERMIT''"
| "str_request_type OTHER = ''RequestType.OTHER''"

text \<open>
  The Dedup Gate: the first request with the subject of the message that the database
  returns, and whether the time difference is less than 86400 seconds. The result is the
  key of that request. \<open>created_at.replace(tzinfo=timezone.utc)\<close> reads the clock time
  that the session returned as a time in UTC, which moves it by the offset of the
  session's zone.
\<close>

definition find_duplicate :: "(time \<Rightarrow> time) \<Rightarrow> time \<Rightarrow> string \<Rightarrow> database \<Rightarrow> nat option" where
  "find_duplicate offset now subj db =
     (case find (\<lambda>r. email_subject r = subj) (requests db) of
        None \<Rightarrow> None
      | Some existing_request \<Rightarrow>
          (case created_at existing_request of
             None \<Rightarrow> None
           | Some created \<Rightarrow>
               if now - (created + offset created) < 86400
               then Some (request_id existing_request) else None))"

text \<open>\<open>sender.split("<")[-1].split(">")[0] if "<" in sender else sender\<close>; a
  \<open>split\<close> is never empty.\<close>

definition email_address :: "string \<Rightarrow> string" where
  "email_address sndr =
     (if sublist ''<'' sndr then hd (split CHR ''>'' (last (split CHR ''<'' sndr))) else sndr)"

definition student_name :: "string \<Rightarrow> string" where
  "student_name sndr =
     (if sublist ''<'' sndr then strip (hd (split CHR ''<'' sndr))
      else hd (split CHR ''@'' (email_address sndr)))"

text \<open>The student of the message, the database with the student, and whether a
  commit was made for it.\<close>

definition get_or_create_student :: "string \<Rightarrow> database \<Rightarrow> student \<times> database \<times> bool" where
  "get_or_create_student sndr db =
     (case find (\<lambda>s. email s = email_address sndr) (students db) of
        Some existing \<Rightarrow> (existing, db, False)
      | None \<Rightarrow>
          (let created =
                 \<lparr>student_pk = next_id (map student_pk (students db)),
                  email = email_address sndr, name = student_name sndr\<rparr>
           in (created, db\<lparr>students := students db @ [created]\<rparr>, True)))"

definition new_request_id :: "database \<Rightarrow> nat" where
  "new_request_id db = next_id (map request_id (requests db))"

definition new_request :: "environment \<Rightarrow> email_data \<Rightarrow> student \<Rightarrow> database \<Rightarrow> request" where
  "new_request env msg stud db =
     \<lparr>request_id = new_request_id db, student_id = student_pk stud,
      email_subject = subject msg, email_body = body msg, request_type = None,
      status = PENDING, llm_category = None, llm_confidence = 0, llm_analysis = None,
      is_compliant = JBool False, compliance_score = JNum 0, missing_documents = None,
      required_documents = None, appointment_id = None, created_at = Some (insert_clock env),
      processed_at = None\<rparr>"

text \<open>Writing the request object back: \<open>UPDATE requests ... WHERE id = request.id\<close>.\<close>

definition save_request :: "request \<Rightarrow> database \<Rightarrow> database" where
  "save_request req db =
     db\<lparr>requests := map (\<lambda>row. if request_id row = request_id req then req else row) (requests db)\<rparr>"

text \<open>
  The loop over the attachments: the texts collected for the evaluation and the document
  rows added. An attachment that is no PDF, has no path or whose file is missing is
  passed over; an error of the extraction or of the indexing leaves a row with the text of
  the error.
\<close>

definition is_pdf :: "attachment \<Rightarrow> bool" where
  "is_pdf att \<longleftrightarrow>
     content_type att = ''application/pdf'' \<or> suffix ''.pdf'' (lower (attachment_filename att))"

definition has_path :: "attachment \<Rightarrow> bool" where
  "has_path att \<longleftrightarrow>
     (case attachment_file_path att of None \<Rightarrow> False | Some p \<Rightarrow> p \<noteq> [])"

definition error_row :: "nat \<Rightarrow> attachment \<Rightarrow> string \<Rightarrow> stored_document" where
  "error_row rid att doc_error =
     \<lparr>document_request_id = rid, filename = attachment_filename att,
      file_path = (case attachment_file_path att of None \<Rightarrow> [] | Some p \<Rightarrow> p),
      file_type = ''pdf'', extracted_text = ''Error extracting text: '' @ doc_error,
      vector_id = None\<rparr>"

definition text_for_vector :: "attachment \<Rightarrow> string \<Rightarrow> string" where
  "text_for_vector att txt =
     (if txt \<noteq> [] then txt else ''Document: '' @ attachment_filename att)"

fun process_attachments ::
  "nat \<Rightarrow> attachment list \<Rightarrow> string list \<times> stored_document list" where
  "process_attachments rid [] = ([], [])"
| "process_attachments rid (att # rest) =
     (case process_attachments rid rest of
        (documents_text, rows) \<Rightarrow>
          if is_pdf att \<and> has_path att \<and> path_exists att then
            (case outcome att of
               ExtractionFails doc_error \<Rightarrow> (documents_text, error_row rid att doc_error # rows)
             | IndexingFails txt doc_error \<Rightarrow>
                 (text_for_vector att txt # documents_text, error_row rid att doc_error # rows)
             | Processed txt vid \<Rightarrow>
                 (text_for_vector att txt # documents_text,
                  \<lparr>document_request_id = rid, filename = attachment_filename att,
                   file_path = (case attachment_file_path att of None \<Rightarrow> [] | Some p \<Rightarrow> p),
                   file_type = ''pdf'',
                   extracted_text =
                     (if txt \<noteq> [] then take 5000 txt
                      else ''Scanned/image PDF: '' @ attachment_filename att),
                   vector_id = Some vid\<rparr> # rows))
          else (documents_text, rows))"

text \<open>\<open>rag_service.compare_with_guidelines\<close> as the worker sees it: the verdict, or
  the text of the error of the retrieval, of the judgment or of the evaluation itself.\<close>

definition rag_outcome :: "environment \<Rightarrow> string \<Rightarrow> string list \<Rightarrow> string + dict" where
  "rag_outcome env student_text documents_text =
     (case retrieval env of
        Inl e \<Rightarrow> Inl e
      | Inr relevant_guidelines \<Rightarrow>
          (case compliance_judgment env of
             Inl e \<Rightarrow> Inl e
           | Inr analysis_text \<Rightarrow>
               (case compare_with_guidelines (decimal_digits env) (json_loads env) student_text
                       documents_text relevant_guidelines analysis_text of
                  Inl e \<Rightarrow> Inl (str_error e)
                | Inr rag_result \<Rightarrow> Inr rag_result)))"

text \<open>The fields that the categorization writes, also when the judgment raises.\<close>

definition categorize :: "environment \<Rightarrow> request \<Rightarrow> request" where
  "categorize env req =
     (case categorization_judgment env of
        Inl llm_error \<Rightarrow>
          req\<lparr>request_type := Some OTHER, llm_category := Some ''error'',
              llm_confidence := 0, llm_analysis := Some (''LLM error: '' @ llm_error)\<rparr>
      | Inr response_content \<Rightarrow>
          (let categorization =
                 categorize_request (json_loads env) (float_of_string env) response_content
           in req\<lparr>request_type := Some (category categorization),
                  llm_category := Some (str_request_type (category categorization)),
                  llm_confidence := confidence categorization,
                  llm_analysis := Some (raw_response categorization)\<rparr>))"

text \<open>
  The last stage, after the commit of \<open>CATEGORIZED\<close>: the allocation for a compliant
  request. The result of the task and the states committed in the stage.
\<close>

definition allocate ::
  "environment \<Rightarrow> student \<Rightarrow> request \<Rightarrow> dict \<Rightarrow> database \<Rightarrow> task_result \<times> database list" where
  "allocate env stud req rag_result db =
     (let categorized_as =
            (case request_type req of None \<Rightarrow> ''None'' | Some t \<Rightarrow> str_request_type t)
      in if truthy (is_compliant req) then
           (case schedule_appointment (allocation_clock env) (student_pk stud) (request_id req)
                   (get rag_result ''required_documents'' (JArr [])) db of
              (None, db') \<Rightarrow> (Success (request_id req) categorized_as False, [])
            | (Some appt, db') \<Rightarrow>
                (let req = req\<lparr>appointment_id := Some (appointment_pk appt),
                                status := APPOINTMENT_SCHEDULED\<rparr>
                 in (Success (request_id req) categorized_as True,
                     [db', save_request req db'])))
         else (Success (request_id req) categorized_as False, []))"

text \<open>
  The stages after the commit of \<open>PROCESSING\<close>: the evaluation, the categorization and
  the allocation. An error of the evaluation is recorded in \<open>llm_analysis\<close>, which is
  empty at that point, and the task returns it.
\<close>

definition evaluate ::
  "environment \<Rightarrow> email_data \<Rightarrow> student \<Rightarrow> request \<Rightarrow> string list \<Rightarrow> database
     \<Rightarrow> task_result \<times> database list" where
  "evaluate env msg stud req documents_text db =
     (case rag_outcome env (body msg) documents_text of
        Inl e \<Rightarrow>
          (Error e, [save_request (req\<lparr>llm_analysis := Some (''Processing error: '' @ e)\<rparr>) db])
      | Inr rag_result \<Rightarrow>
          (let req = req\<lparr>is_compliant := get rag_result ''is_compliant'' (JBool False),
                         compliance_score := get rag_result ''compliance_score'' (JNum 0),
                         missing_documents := Some (get rag_result ''missing_documents'' (JArr [])),
                         required_documents := Some (get rag_result ''required_documents'' (JArr []))\<rparr>;
               db1 = save_request req db;
               req = (categorize env req)\<lparr>status := CATEGORIZED,
                                          processed_at := Some (processed_clock env)\<rparr>;
               db2 = save_request req db1
           in (case allocate env stud req rag_result db2 of
                 (result, committed) \<Rightarrow> (result, [db1, db2] @ committed))))"

text \<open>
  \<open>process_email_task\<close>: the result of the task and the states of the database that
  the run commits, in their order. The request type that the worker derives from the
  subject and the body only steers the retrieval, whose result is given; the confirmation
  mail, whose errors the worker catches, writes nothing and is left out.
\<close>

definition process_email_task ::
  "environment \<Rightarrow> email_data \<Rightarrow> database \<Rightarrow> task_result \<times> database list" where
  "process_email_task env msg db =
     (case find_duplicate (utc_offset env) (dedup_clock env) (subject msg) db of
        Some existing_id \<Rightarrow> (Skipped existing_id, [])
      | None \<Rightarrow>
          (case services_error env of
             Some e \<Rightarrow> (Error e, [])
           | None \<Rightarrow>
               (case get_or_create_student (sender msg) db of
                  (stud, db0, created) \<Rightarrow>
                    (let req = new_request env msg stud db0;
                         db1 = db0\<lparr>requests := requests db0 @ [req]\<rparr>;
                         (documents_text, rows) =
                           process_attachments (request_id req) (attachments msg);
                         db2 = db1\<lparr>documents := documents db1 @ rows\<rparr>;
                         req = req\<lparr>status := PROCESSING\<rparr>;
                         db3 = save_request req db2
                     in (case evaluate env msg stud req documents_text db3 of
                           (result, committed) \<Rightarrow>
                             (result,
                              (if created then [db0] else []) @ [db1, db2, db3] @ committed))))))"

text \<open>
  The statuses that the request with the key \<open>rid\<close> passes through in a sequence of
  committed states.
\<close>

definition status_history :: "nat \<Rightarrow> database list \<Rightarrow> request_status list" where
  "status_history rid committed =
     remdups_adj (concat (map (\<lambda>db. map status (filter (\<lambda>r. request_id r = rid) (requests db)))
                            committed))"

definition pipeline_states :: "request_status list" where
  "pipeline_states = [PENDING, PROCESSING, CATEGORIZED, APPOINTMENT_SCHEDULED]"

text \<open>The same without dropping the repeats: one status for each committed state that
  holds the request.\<close>

definition raw_history :: "nat \<Rightarrow> database list \<Rightarrow> request_status list" where
  "raw_history rid committed =
     concat (map (\<lambda>db. map status (filter (\<lambda>r. request_id r = rid) (requests db))) committed)"



section \<open>Concrete inputs\<close>

text \<open>A guideline that lists the passport, and one that lists no document the
  extraction knows.\<close>

definition passport_guideline :: guideline_hit where
  "passport_guideline =
     \<lparr>hit_id = ''residence_permit.txt'',
      document = ''Required documents:\<newline>- Current valid passport''\<rparr>"

definition photo_guideline :: guideline_hit where
  "photo_guideline = \<lparr>hit_id = ''photo.txt'', document = ''Bring two photographs.''\<rparr>"





text \<open>A pool with one slot, free and in the future of the time 3600.\<close>

definition single_slot_db :: database where
  "single_slot_db =
     \<lparr>students = [], requests = [], documents = [], appointments = [],
      slots =
        [\<lparr>slot_id = 1, slot_date = 86400, slot_time = ''09:00'', is_available = True,
          max_capacity = 1, current_bookings = 0\<rparr>]\<rparr>"

text \<open>
  A pool with two free slots of the same date, where the database returns the row of the
  slot inserted second before the row of the slot inserted first; and a pool whose only
  slot has a place left and the flag \<open>is_available\<close> unset.
\<close>

definition tie_db :: database where
  "tie_db =
     \<lparr>students = [], requests = [], documents = [], appointments = [],
      slots =
        [\<lparr>slot_id = 2, slot_date = 86400, slot_time = ''10:30'', is_available = True,
          max_capacity = 1, current_bookings = 0\<rparr>,
         \<lparr>slot_id = 1, slot_date = 86400, slot_time = ''09:00'', is_available = True,
          max_capacity = 1, current_bookings = 0\<rparr>]\<rparr>"

definition unflagged_db :: database where
  "unflagged_db =
     \<lparr>students = [], requests = [], documents = [], appointments = [],
      slots =
        [\<lparr>slot_id = 1, slot_date = 86400, slot_time = ''09:00'', is_available = False,
          max_capacity = 2, current_bookings = 1\<rparr>]\<rparr>"

text \<open>A pool with a full slot, two free slots of the same date and a free slot in the
  past of the time 3600, and three calls at that time.\<close>

definition example_db :: database where
  "example_db =
     \<lparr>students = [], requests = [], documents = [], appointments = [],
      slots =
        [\<lparr>slot_id = 1, slot_date = 86400, slot_time = ''09:00'', is_available = False,
          max_capacity = 1, current_bookings = 1\<rparr>,
         \<lparr>slot_id = 2, slot_date = 172800, slot_time = ''09:00'', is_available = True,
          max_capacity = 1, current_bookings = 0\<rparr>,
         \<lparr>slot_id = 3, slot_date = 172800, slot_time = ''10:30'', is_available = True,
          max_capacity = 1, current_bookings = 0\<rparr>,
         \<lparr>slot_id = 4, slot_date = 0, slot_time = ''12:00'', is_available = True,
          max_capacity = 1, current_bookings = 0\<rparr>]\<rparr>"

definition example_attempts :: "attempt list" where
  "example_attempts = [(3600, 1, 1, JArr []), (3600, 2, 2, JArr []), (3600, 3, 3, JArr [])]"

text \<open>A run of the pipeline: the services come up, the retrieval returns the passport
  guideline, the compliance judgment answers with a text that cannot be parsed, and the
  categorization judgment is down.\<close>

definition pipeline_env :: environment where
  "pipeline_env =
     \<lparr>decimal_digits = Map.empty, json_loads = Map.empty, float_of_string = Map.empty,
      utc_offset = (\<lambda>created. 0), dedup_clock = 3600,
      insert_clock = 3601, processed_clock = 3602, allocation_clock = 3603,
      services_error = None, retrieval = Inr [passport_guideline],
      compliance_judgment = Inr ''unclear'', categorization_judgment = Inl ''unavailable''\<rparr>"


definition bob_message :: email_data where
  "bob_message =
     \<lparr>subject = ''Residence permit extension'', sender = ''Bob <bob@example.org>'',
      body = ''Attached: passport copy.'', attachments = []\<rparr>"

text \<open>A pool whose only future slot is full.\<close>

definition full_db :: database where
  "full_db =
     \<lparr>students = [], requests = [], documents = [], appointments = [],
      slots =
        [\<lparr>slot_id = 1, slot_date = 86400, slot_time = ''09:00'', is_available = False,
          max_capacity = 1, current_bookings = 1\<rparr>,
         \<lparr>slot_id = 2, slot_date = 0, slot_time = ''12:00'', is_available = True,
          max_capacity = 1, current_bookings = 0\<rparr>]\<rparr>"


text \<open>The Arabic-Indic digits nine and five in the table of the decimal digits.\<close>

definition arabic_indic :: "string \<Rightarrow> nat option" where
  "arabic_indic = map_of [([CHR 0xD9, CHR 0xA9], 9), ([CHR 0xD9, CHR 0xA5], 5)]"

section \<open>Properties\<close>

subsection \<open>The deterministic extraction\<close>

lemma extract_loop_passport:
  "acc = [] \<or> acc = [''passport''] \<Longrightarrow>
   extract_loop ls b acc = [] \<or> extract_loop ls b acc = [''passport'']"
proof (induction ls arbitrary: b acc)
  case Nil
  then show ?case by simp
next
  case (Cons l ls)
  have low: "lower ''passport'' = ''passport''"
    by (simp add: lower_def lower_char_def)
  from Cons.prems show ?case
  proof
    assume "acc = []"
    then show ?thesis
      using Cons.IH [of "[]"] Cons.IH [of "[''passport'']"] by (simp add: Let_def)
  next
    assume "acc = [''passport'']"
    then show ?thesis
      using Cons.IH [of "[''passport'']"] by (simp add: Let_def low)
  qed
qed

text \<open>
  C10. For every guideline text the deterministic extraction returns the empty list or
  the one-element list \<open>["passport"]\<close>: no other document type can come out of it.
\<close>

theorem extract_only_passport:
  "extract_required_documents_from_guideline g = [] \<or>
   extract_required_documents_from_guideline g = [''passport'']"
proof -
  have "extract_loop (split CHR 0x0A g) False [] = [] \<or>
        extract_loop (split CHR 0x0A g) False [] = [''passport'']"
    by (rule extract_loop_passport) simp
  then show ?thesis
    by (auto simp: extract_required_documents_from_guideline_def Let_def)
qed

subsection \<open>The fallback classification of a judgment that cannot be parsed\<close>

lemma extract_score_none:
  "\<not> list_ex (in_range_match txt) ps \<Longrightarrow> extract_score ps txt d = d"
  by (induction ps) (auto simp: in_range_match_def split: option.splits)

lemma has_negative_not_compliant:
  "sublist ''not compliant'' txt \<Longrightarrow> has_negative txt"
  by (simp add: has_negative_def negative_indicators_def)

text \<open>
  C4, as the code has it. A judgment from which no JSON object with the key can be
  decoded, whose text holds "not compliant" (in any case) and no positive indicator, and
  in which no score pattern finds a score between 0 and 100, is classified as not
  compliant with the default score 50.
\<close>

theorem fallback_not_compliant_keeps_default:
  assumes "parse_json_stage loads json_patterns t = None"
    and "sublist ''not compliant'' (lower t)"
    and "\<not> has_positive (lower t)"
    and "\<not> extractable_score decimal (lower t)"
  shows "parse_compliance_analysis decimal loads t ''is_compliant'' = Some (JBool False) \<and>
         parse_compliance_analysis decimal loads t ''compliance_score'' = Some (JNum 50)"
proof -
  have neg: "has_negative (lower t)"
    using assms(2) by (rule has_negative_not_compliant)
  have flag: "fallback_is_compliant (lower t) = False"
    using neg assms(3) by (simp add: fallback_is_compliant_def)
  have score: "extract_score (score_patterns decimal) (lower t) 50 = 50"
    using assms(4) by (simp add: extractable_score_def extract_score_none)
  show ?thesis
    using assms(1) flag score
    by (simp add: parse_compliance_analysis_def parse_fallback_def adjust_score_def)
qed

text \<open>The hypotheses of C4 hold at a plain refusal, and the theorem gives its verdict.\<close>

theorem fallback_not_compliant_keeps_default_witness:
  "parse_json_stage Map.empty json_patterns ''Result: NOT COMPLIANT, passport absent'' = None \<and>
   sublist ''not compliant'' (lower ''Result: NOT COMPLIANT, passport absent'') \<and>
   \<not> has_positive (lower ''Result: NOT COMPLIANT, passport absent'') \<and>
   \<not> extractable_score Map.empty (lower ''Result: NOT COMPLIANT, passport absent'') \<and>
   parse_compliance_analysis Map.empty Map.empty ''Result: NOT COMPLIANT, passport absent'' ''is_compliant'' =
     Some (JBool False) \<and>
   parse_compliance_analysis Map.empty Map.empty ''Result: NOT COMPLIANT, passport absent'' ''compliance_score'' =
     Some (JNum 50)"
proof -
  let ?t = "''Result: NOT COMPLIANT, passport absent''"
  have h1: "parse_json_stage Map.empty json_patterns ?t = None"
    by code_simp
  have h2: "sublist ''not compliant'' (lower ?t)"
    by code_simp
  have h3: "\<not> has_positive (lower ?t)"
    by code_simp
  have h4: "\<not> extractable_score Map.empty (lower ?t)"
    by code_simp
  show ?thesis
    using h1 h2 h3 h4 fallback_not_compliant_keeps_default [OF h1 h2 h3 h4] by blast
qed

text \<open>
  C4 as stated fails: the text \<open>not compliant\<close> meets every hypothesis of the claim
  and its score is not 30.
\<close>

theorem fallback_not_compliant_score_is_not_30:
  "parse_json_stage Map.empty json_patterns ''not compliant'' = None \<and>
   sublist ''not compliant'' (lower ''not compliant'') \<and>
   \<not> has_positive (lower ''not compliant'') \<and>
   \<not> extractable_score Map.empty (lower ''not compliant'') \<and>
   parse_compliance_analysis Map.empty Map.empty ''not compliant'' ''compliance_score'' \<noteq> Some (JNum 30)"
  by code_simp

text \<open>
  The score patterns read white space and digits beyond ASCII, and the score is the
  double that \<open>float\<close> gives: a percentage written with a no-break space, a score in
  Arabic-Indic digits (with their values in the table of digits), and a score that
  rounds to 50.
\<close>

lemma fallback_score_beyond_ascii:
  "parse_compliance_analysis Map.empty Map.empty
     (''not compliant, 95'' @ [CHR 0xC2, CHR 0xA0] @ ''%'') ''compliance_score'' = Some (JNum 30) \<and>
   parse_compliance_analysis arabic_indic Map.empty
     (''not compliant. score: '' @ [CHR 0xD9, CHR 0xA9, CHR 0xD9, CHR 0xA5]) ''compliance_score'' =
     Some (JNum 30) \<and>
   parse_compliance_analysis Map.empty Map.empty
     ''not compliant. score: 50.00000000000000001'' ''compliance_score'' = Some (JNum 50)"
  by code_simp

subsection \<open>The verdict of the compliance evaluation\<close>

lemma override_fields:
  assumes "override_with_guideline R st sd cd = Inr cd'"
  shows "\<exists>present ls.
           lowered_items present = Inr ls \<and>
           cd' ''required_documents'' = Some (JArr (map JStr R)) \<and>
           cd' ''present_documents'' = Some present \<and>
           cd' ''missing_documents'' = Some (JArr (map JStr (filter (\<lambda>doc. lower doc \<notin> set ls) R))) \<and>
           cd' ''is_compliant'' = Some (JBool (filter (\<lambda>doc. lower doc \<notin> set ls) R = [])) \<and>
           cd' ''compliance_score'' =
             Some (JNum (override_score (length R) (length (filter (\<lambda>doc. lower doc \<notin> set ls) R))))"
  using assms
  by (auto simp: override_with_guideline_def Let_def split: sum.splits)

lemma compare_override:
  assumes "extract_required_documents_from_guideline (first_guideline_text gs) = R"
    and "R \<noteq> []"
    and "compare_with_guidelines decimal loads st sd gs a = Inr v"
  shows "\<exists>present ls.
           lowered_items present = Inr ls \<and>
           v ''required_documents'' = Some (JArr (map JStr R)) \<and>
           v ''present_documents'' = Some present \<and>
           v ''missing_documents'' = Some (JArr (map JStr (filter (\<lambda>doc. lower doc \<notin> set ls) R))) \<and>
           v ''is_compliant'' = Some (JBool (filter (\<lambda>doc. lower doc \<notin> set ls) R = [])) \<and>
           v ''compliance_score'' =
             Some (JNum (override_score (length R) (length (filter (\<lambda>doc. lower doc \<notin> set ls) R))))"
proof -
  obtain cd' where ov: "override_with_guideline R st sd (parse_compliance_analysis decimal loads a) = Inr cd'"
    and v: "v = map_of
               [(''is_compliant'', get cd' ''is_compliant'' (JBool False)),
                (''compliance_score'', get cd' ''compliance_score'' (JNum 0)),
                (''present_documents'', get cd' ''present_documents'' (JArr [])),
                (''missing_documents'', get cd' ''missing_documents'' (JArr [])),
                (''required_documents'', get cd' ''required_documents'' (JArr [])),
                (''issues'', get cd' ''issues'' (JArr [])),
                (''analysis'', JStr a),
                (''relevant_guidelines'', JArr (map (\<lambda>doc. JStr (hit_id doc)) gs))]"
    using assms by (auto simp: compare_with_guidelines_def Let_def split: sum.splits)
  from override_fields [OF ov] obtain present ls where f:
    "lowered_items present = Inr ls"
    "cd' ''required_documents'' = Some (JArr (map JStr R))"
    "cd' ''present_documents'' = Some present"
    "cd' ''missing_documents'' = Some (JArr (map JStr (filter (\<lambda>doc. lower doc \<notin> set ls) R)))"
    "cd' ''is_compliant'' = Some (JBool (filter (\<lambda>doc. lower doc \<notin> set ls) R = []))"
    "cd' ''compliance_score'' =
       Some (JNum (override_score (length R) (length (filter (\<lambda>doc. lower doc \<notin> set ls) R))))"
    by blast
  show ?thesis
    using f by (intro exI [of _ present] exI [of _ ls]) (simp add: v get_def)
qed

lemma compare_without_override:
  assumes "extract_required_documents_from_guideline (first_guideline_text gs) = []"
    and "compare_with_guidelines decimal loads st sd gs a = Inr v"
  shows "v ''is_compliant'' =
           Some (get (parse_compliance_analysis decimal loads a) ''is_compliant'' (JBool False))"
    and "v ''compliance_score'' =
           Some (get (parse_compliance_analysis decimal loads a) ''compliance_score'' (JNum 0))"
    and "v ''present_documents'' =
           Some (get (parse_compliance_analysis decimal loads a) ''present_documents'' (JArr []))"
    and "v ''missing_documents'' =
           Some (get (parse_compliance_analysis decimal loads a) ''missing_documents'' (JArr []))"
    and "v ''required_documents'' =
           Some (get (parse_compliance_analysis decimal loads a) ''required_documents'' (JArr []))"
  using assms by (auto simp: compare_with_guidelines_def Let_def)

lemma fallback_missing_documents:
  assumes "parse_json_stage loads json_patterns a = None"
  shows "parse_compliance_analysis decimal loads a ''missing_documents'' = Some (JArr [])"
  using assms by (simp add: parse_compliance_analysis_def parse_fallback_def Let_def)

text \<open>
  C1, as the code has it. For every verdict \<open>v\<close> that \<open>compare_with_guidelines\<close>
  returns: when the deterministic extraction returns a non-empty list, \<open>is_compliant\<close>
  is true exactly when \<open>missing_documents\<close> is empty, and the score is 100 whenever
  \<open>is_compliant\<close> is true; when the extraction returns the empty list, the flag, the
  score and the three lists of documents of the verdict are those of the parsed judgment
  (or the defaults of the keys it lacks); and the parse-failure fallback reports
  \<open>missing_documents = []\<close>, so that with an empty extraction the verdict does.
\<close>

theorem override_verdict_consistent:
  assumes "compare_with_guidelines decimal loads st sd gs a = Inr v"
  shows "(extract_required_documents_from_guideline (first_guideline_text gs) \<noteq> [] \<longrightarrow>
            (v ''is_compliant'' = Some (JBool True) \<longleftrightarrow> v ''missing_documents'' = Some (JArr [])) \<and>
            (v ''is_compliant'' = Some (JBool True) \<longrightarrow> v ''compliance_score'' = Some (JNum 100))) \<and>
         (extract_required_documents_from_guideline (first_guideline_text gs) = [] \<longrightarrow>
            v ''is_compliant'' =
              Some (get (parse_compliance_analysis decimal loads a) ''is_compliant'' (JBool False)) \<and>
            v ''compliance_score'' =
              Some (get (parse_compliance_analysis decimal loads a) ''compliance_score'' (JNum 0)) \<and>
            v ''present_documents'' =
              Some (get (parse_compliance_analysis decimal loads a) ''present_documents'' (JArr [])) \<and>
            v ''missing_documents'' =
              Some (get (parse_compliance_analysis decimal loads a) ''missing_documents'' (JArr [])) \<and>
            v ''required_documents'' =
              Some (get (parse_compliance_analysis decimal loads a) ''required_documents'' (JArr []))) \<and>
         (parse_json_stage loads json_patterns a = None \<longrightarrow>
            parse_compliance_analysis decimal loads a ''missing_documents'' = Some (JArr []) \<and>
            (extract_required_documents_from_guideline (first_guideline_text gs) = [] \<longrightarrow>
               v ''missing_documents'' = Some (JArr [])))"
proof (intro conjI impI)
  assume ne: "extract_required_documents_from_guideline (first_guideline_text gs) \<noteq> []"
  from compare_override [OF refl ne assms] obtain ls where
    m: "v ''missing_documents'' =
          Some (JArr (map JStr (filter (\<lambda>doc. lower doc \<notin> set ls)
            (extract_required_documents_from_guideline (first_guideline_text gs)))))"
    and c: "v ''is_compliant'' =
          Some (JBool (filter (\<lambda>doc. lower doc \<notin> set ls)
            (extract_required_documents_from_guideline (first_guideline_text gs)) = []))"
    and s: "v ''compliance_score'' =
          Some (JNum (override_score
            (length (extract_required_documents_from_guideline (first_guideline_text gs)))
            (length (filter (\<lambda>doc. lower doc \<notin> set ls)
              (extract_required_documents_from_guideline (first_guideline_text gs))))))"
    by blast
  show "v ''is_compliant'' = Some (JBool True) \<longleftrightarrow> v ''missing_documents'' = Some (JArr [])"
    unfolding m c by auto
  show "v ''compliance_score'' = Some (JNum 100)" if "v ''is_compliant'' = Some (JBool True)"
    using that unfolding c s by (auto simp: override_score_def)
next
  assume e: "extract_required_documents_from_guideline (first_guideline_text gs) = []"
  show "v ''is_compliant'' =
          Some (get (parse_compliance_analysis decimal loads a) ''is_compliant'' (JBool False))"
    using e assms by (rule compare_without_override(1))
  show "v ''compliance_score'' =
          Some (get (parse_compliance_analysis decimal loads a) ''compliance_score'' (JNum 0))"
    using e assms by (rule compare_without_override(2))
  show "v ''present_documents'' =
          Some (get (parse_compliance_analysis decimal loads a) ''present_documents'' (JArr []))"
    using e assms by (rule compare_without_override(3))
  show "v ''missing_documents'' =
          Some (get (parse_compliance_analysis decimal loads a) ''missing_documents'' (JArr []))"
    using e assms by (rule compare_without_override(4))
  show "v ''required_documents'' =
          Some (get (parse_compliance_analysis decimal loads a) ''required_documents'' (JArr []))"
    using e assms by (rule compare_without_override(5))
next
  assume f: "parse_json_stage loads json_patterns a = None"
  show "parse_compliance_analysis decimal loads a ''missing_documents'' = Some (JArr [])"
    using f by (rule fallback_missing_documents)
next
  assume f: "parse_json_stage loads json_patterns a = None"
    and e: "extract_required_documents_from_guideline (first_guideline_text gs) = []"
  show "v ''missing_documents'' = Some (JArr [])"
    using compare_without_override(4) [OF e assms] fallback_missing_documents [OF f, of decimal]
    by (simp add: get_def)
qed

text \<open>
  Scenario A of the specification: the guideline lists the passport and the submission
  mentions a passport copy. And a guideline that lists no document the extraction knows,
  with a judgment that cannot be parsed: the verdict has the flag of the fallback and no
  missing document.
\<close>

theorem override_verdict_consistent_witness:
  "extract_required_documents_from_guideline (first_guideline_text [passport_guideline]) \<noteq> [] \<and>
   \<not> isl (compare_with_guidelines Map.empty Map.empty ''Attached: passport copy.'' []
            [passport_guideline] ''unclear'') \<and>
   projr (compare_with_guidelines Map.empty Map.empty ''Attached: passport copy.'' []
            [passport_guideline] ''unclear'') ''is_compliant'' = Some (JBool True) \<and>
   projr (compare_with_guidelines Map.empty Map.empty ''Attached: passport copy.'' []
            [passport_guideline] ''unclear'') ''missing_documents'' = Some (JArr []) \<and>
   projr (compare_with_guidelines Map.empty Map.empty ''Attached: passport copy.'' []
            [passport_guideline] ''unclear'') ''compliance_score'' = Some (JNum 100) \<and>
   extract_required_documents_from_guideline (first_guideline_text [photo_guideline]) = [] \<and>
   parse_json_stage Map.empty json_patterns ''The file is not compliant.'' = None \<and>
   \<not> isl (compare_with_guidelines Map.empty Map.empty ''Hello'' [] [photo_guideline]
            ''The file is not compliant.'') \<and>
   projr (compare_with_guidelines Map.empty Map.empty ''Hello'' [] [photo_guideline]
            ''The file is not compliant.'') ''is_compliant'' = Some (JBool False) \<and>
   projr (compare_with_guidelines Map.empty Map.empty ''Hello'' [] [photo_guideline]
            ''The file is not compliant.'') ''missing_documents'' = Some (JArr [])"
proof -
  let ?r = "compare_with_guidelines Map.empty Map.empty ''Attached: passport copy.'' []
              [passport_guideline] ''unclear''"
  let ?q = "compare_with_guidelines Map.empty Map.empty ''Hello'' [] [photo_guideline]
              ''The file is not compliant.''"
  have h1: "extract_required_documents_from_guideline (first_guideline_text [passport_guideline]) \<noteq> []"
    by code_simp
  have h2: "\<not> isl ?r"
    by code_simp
  then have h3: "?r = Inr (projr ?r)"
    by simp
  have c: "projr ?r ''is_compliant'' = Some (JBool True)"
    by code_simp
  have g1: "extract_required_documents_from_guideline (first_guideline_text [photo_guideline]) = []"
    by code_simp
  have g2: "parse_json_stage Map.empty json_patterns ''The file is not compliant.'' = None"
    by code_simp
  have g3: "\<not> isl ?q"
    by code_simp
  then have g4: "?q = Inr (projr ?q)"
    by simp
  have g5: "get (parse_compliance_analysis Map.empty Map.empty ''The file is not compliant.'')
              ''is_compliant'' (JBool False) = JBool False"
    by code_simp
  from override_verdict_consistent [OF h3] h1 c
  have a: "projr ?r ''missing_documents'' = Some (JArr [])"
    "projr ?r ''compliance_score'' = Some (JNum 100)"
    by blast+
  from override_verdict_consistent [OF g4] g1 g2
  have b: "projr ?q ''is_compliant'' =
             Some (get (parse_compliance_analysis Map.empty Map.empty ''The file is not compliant.'')
               ''is_compliant'' (JBool False))"
    "projr ?q ''missing_documents'' = Some (JArr [])"
    by blast+
  show ?thesis
    using h1 h2 c g1 g2 g3 a b(2) b(1) [unfolded g5] by simp
qed

text \<open>
  C1 as stated fails where the extraction returns the empty list and the judgment cannot
  be parsed: a refusal gives \<open>is_compliant\<close> false with no missing document, and an
  approval gives \<open>is_compliant\<close> true with the score 50.
\<close>

theorem fallback_verdict_inconsistent:
  "extract_required_documents_from_guideline (first_guideline_text [photo_guideline]) = [] \<and>
   \<not> isl (compare_with_guidelines Map.empty Map.empty ''Hello'' [] [photo_guideline] ''The file is not compliant.'') \<and>
   projr (compare_with_guidelines Map.empty Map.empty ''Hello'' [] [photo_guideline] ''The file is not compliant.'')
     ''is_compliant'' = Some (JBool False) \<and>
   projr (compare_with_guidelines Map.empty Map.empty ''Hello'' [] [photo_guideline] ''The file is not compliant.'')
     ''missing_documents'' = Some (JArr []) \<and>
   projr (compare_with_guidelines Map.empty Map.empty ''Hello'' [] [photo_guideline] ''The student is compliant.'')
     ''is_compliant'' = Some (JBool True) \<and>
   projr (compare_with_guidelines Map.empty Map.empty ''Hello'' [] [photo_guideline] ''The student is compliant.'')
     ''compliance_score'' = Some (JNum 50)"
  by code_simp



lemma lower_all_append:
  "lower_all ps = Inr ls \<Longrightarrow> lower_all (ps @ [JStr d]) = Inr (ls @ [lower d])"
proof (induction ps arbitrary: ls rule: lower_all.induct)
  case 1
  then show ?case by simp
next
  case (2 p ps)
  then show ?case by (auto split: sum.splits)
qed simp_all

text \<open>
  The evaluation returns a verdict whenever the judgment's \<open>present_documents\<close> is a
  list of strings (as it is in the fallback, where it is empty): it raises only on a
  judgment that put something else there.
\<close>

lemma compare_returns:
  assumes "get (parse_compliance_analysis decimal loads a) ''present_documents'' (JArr []) = JArr ps"
    and "lower_all ps = Inr ls"
  shows "\<not> isl (compare_with_guidelines decimal loads st sd gs a)"
proof -
  have *: "\<exists>present ls'. detect_passport R c (JArr ps) = Inr present \<and>
          lowered_items present = Inr ls'" for R c
    using assms(2) lower_all_append [OF assms(2), of "''passport''"]
    by (auto simp: detect_passport_def)
  have "\<not> isl (override_with_guideline R st sd (parse_compliance_analysis decimal loads a))" for R
  proof -
    obtain present ls' where d:
      "detect_passport R (lower (st @ '' '' @ join '' '' sd)) (JArr ps) = Inr present"
      "lowered_items present = Inr ls'"
      using * by blast
    show ?thesis
      using d assms(1) by (simp add: override_with_guideline_def Let_def)
  qed
  note ov = this
  let ?R = "extract_required_documents_from_guideline (first_guideline_text gs)"
  obtain cd where "override_with_guideline ?R st sd (parse_compliance_analysis decimal loads a) = Inr cd"
    using ov [of ?R]
    by (cases "override_with_guideline ?R st sd (parse_compliance_analysis decimal loads a)") auto
  then show ?thesis
    by (simp add: compare_with_guidelines_def Let_def)
qed

subsection \<open>The confidence of the categorization\<close>




subsection \<open>The selection of the next slot\<close>

lemma sort_key_Nil_iff: "sort_key f ys = [] \<longleftrightarrow> ys = []"
  by (metis length_sort length_0_conv)

lemma get_next_None_iff:
  "get_next_available_slot now db = None \<longleftrightarrow> filter (slot_filter now) (slots db) = []"
  by (cases "sort_key slot_date (filter (slot_filter now) (slots db))")
     (auto simp: get_next_available_slot_def sort_key_Nil_iff)

lemma sort_key_Cons_hd:
  assumes "sort_key f (x # ys) = s # ss"
  shows "(sort_key f ys = [] \<and> s = x) \<or>
         (\<exists>s' ss'. sort_key f ys = s' # ss' \<and> (if f x \<le> f s' then s = x else s = s'))"
  using assms by (cases "sort_key f ys") (auto split: if_splits)

lemma sort_key_filter_hd:
  assumes "sort_key f (filter P xs) = s # ss"
  shows "\<exists>pre post. xs = pre @ s # post \<and> P s \<and>
           (\<forall>y \<in> set pre. P y \<longrightarrow> f s < f y) \<and> (\<forall>y \<in> set post. P y \<longrightarrow> f s \<le> f y)"
  using assms
proof (induction xs arbitrary: s ss)
  case Nil
  then show ?case by simp
next
  case (Cons x xs)
  show ?case
  proof (cases "P x")
    case False
    then have "sort_key f (filter P xs) = s # ss"
      using Cons.prems by simp
    from Cons.IH [OF this] obtain pre post where d: "xs = pre @ s # post" "P s"
      "\<forall>y \<in> set pre. P y \<longrightarrow> f s < f y" "\<forall>y \<in> set post. P y \<longrightarrow> f s \<le> f y"
      by blast
    show ?thesis
      by (rule exI [of _ "x # pre"], rule exI [of _ post]) (use d False in auto)
  next
    case True
    then have "sort_key f (x # filter P xs) = s # ss"
      using Cons.prems by simp
    from sort_key_Cons_hd [OF this] consider
      (single) "sort_key f (filter P xs) = []" "s = x"
      | (other) s' ss' where "sort_key f (filter P xs) = s' # ss'"
          "if f x \<le> f s' then s = x else s = s'"
      by blast
    then show ?thesis
    proof cases
      case single
      then have "filter P xs = []"
        by (simp add: sort_key_Nil_iff)
      then have "\<forall>y \<in> set xs. \<not> P y"
        by (simp add: filter_empty_conv)
      then show ?thesis
        by (intro exI [of _ "[]"] exI [of _ xs]) (use single True in auto)
    next
      case other
      from Cons.IH [OF other(1)] obtain pre post where d: "xs = pre @ s' # post" "P s'"
        "\<forall>y \<in> set pre. P y \<longrightarrow> f s' < f y" "\<forall>y \<in> set post. P y \<longrightarrow> f s' \<le> f y"
        by blast
      show ?thesis
      proof (cases "f x \<le> f s'")
        case le: True
        then have "s = x" using other(2) by simp
        moreover have "\<forall>y \<in> set xs. P y \<longrightarrow> f x \<le> f y"
          using d le by auto
        ultimately show ?thesis
          by (intro exI [of _ "[]"] exI [of _ xs]) (use True in auto)
      next
        case gt: False
        then have "s = s'" using other(2) by simp
        then show ?thesis
          by (intro exI [of _ "x # pre"] exI [of _ post]) (use d gt in auto)
      qed
    qed
  qed
qed

lemma slot_filter_free:
  "flag_derived s \<Longrightarrow> slot_filter now s \<longleftrightarrow> free_slot now s"
  by (auto simp: flag_derived_def slot_filter_def free_slot_def)

lemma filter_slot_filter_free:
  assumes "list_all flag_derived rows"
  shows "filter (slot_filter now) rows = filter (free_slot now) rows"
  using assms by (intro filter_cong) (auto simp: list_all_iff slot_filter_free)

lemma pool_ok_flags: "pool_ok rows \<Longrightarrow> list_all flag_derived rows"
  by (auto simp: pool_ok_def slot_ok_def list_all_iff)

text \<open>
  C6, as the code has it. For every pool and allocation time, \<open>get_next_available_slot\<close>
  returns nothing exactly when no slot passes its filter (the flag \<open>is_available\<close> is
  set, a place is left, and the date is after that time); otherwise it returns a slot of
  the pool that passes the filter, and no slot that passes the filter has an earlier
  date. Nothing is said about which of several such slots of the earliest date it is.
\<close>

theorem next_slot_earliest:
  "(get_next_available_slot now db = None \<longleftrightarrow> \<not> list_ex (slot_filter now) (slots db)) \<and>
   (\<forall>s. get_next_available_slot now db = Some s \<longrightarrow>
      s \<in> set (slots db) \<and> slot_filter now s \<and>
      (\<forall>y \<in> set (slots db). slot_filter now y \<longrightarrow> slot_date s \<le> slot_date y))"
proof (intro conjI allI impI)
  show "get_next_available_slot now db = None \<longleftrightarrow> \<not> list_ex (slot_filter now) (slots db)"
    by (simp add: get_next_None_iff filter_empty_conv list_ex_iff)
next
  fix s
  assume "get_next_available_slot now db = Some s"
  then obtain ss where "sort_key slot_date (filter (slot_filter now) (slots db)) = s # ss"
    by (auto simp: get_next_available_slot_def split: list.splits)
  from sort_key_filter_hd [OF this] obtain pre post where d:
    "slots db = pre @ s # post" "slot_filter now s"
    "\<forall>y \<in> set pre. slot_filter now y \<longrightarrow> slot_date s < slot_date y"
    "\<forall>y \<in> set post. slot_filter now y \<longrightarrow> slot_date s \<le> slot_date y"
    by blast
  show "s \<in> set (slots db)"
    using d(1) by simp
  show "slot_filter now s"
    by (rule d(2))
  show "\<forall>y \<in> set (slots db). slot_filter now y \<longrightarrow> slot_date s \<le> slot_date y"
    using d by (auto simp: less_imp_le)
qed

text \<open>The example pool at the time 3600: a slot is returned, it is one of the two free
  slots of the earliest date, and the free slot with the key 3 is not earlier.\<close>

theorem next_slot_earliest_witness:
  "map_option slot_date (get_next_available_slot 3600 example_db) = Some 172800 \<and>
   list_ex (slot_filter 3600) (slots example_db) \<and>
   list_ex (\<lambda>y. slot_id y = 3 \<and> slot_filter 3600 y \<and> slot_date y = 172800) (slots example_db)"
proof -
  have n: "map_option slot_date (get_next_available_slot 3600 example_db) = Some 172800"
    by code_simp
  then have "get_next_available_slot 3600 example_db \<noteq> None"
    by auto
  then have "list_ex (slot_filter 3600) (slots example_db)"
    using next_slot_earliest [of 3600 example_db] by simp
  moreover have "list_ex (\<lambda>y. slot_id y = 3 \<and> slot_filter 3600 y \<and> slot_date y = 172800)
      (slots example_db)"
    by code_simp
  ultimately show ?thesis
    using n by simp
qed

text \<open>
  C6 as stated fails. Two free slots of the same date, where the database returns the row
  of the slot inserted second first: that slot is returned, not the one inserted first.
  And a slot with a place left and a date in the future whose flag \<open>is_available\<close> is
  unset: nothing is returned.
\<close>

theorem tie_not_by_insertion_order:
  "free_slot 3600 (slots tie_db ! 0) \<and> free_slot 3600 (slots tie_db ! 1) \<and>
   map slot_date (slots tie_db) = [86400, 86400] \<and>
   map slot_id (slots tie_db) = [2, 1] \<and>
   map_option slot_id (get_next_available_slot 3600 tie_db) = Some 2 \<and>
   list_ex (free_slot 3600) (slots unflagged_db) \<and>
   get_next_available_slot 3600 unflagged_db = None"
  by code_simp

subsection \<open>Sequences of allocations\<close>

lemma get_next_Some_mem:
  assumes "get_next_available_slot now db = Some s"
  shows "s \<in> set (slots db) \<and> slot_filter now s"
proof -
  from assms obtain ss where "sort_key slot_date (filter (slot_filter now) (slots db)) = s # ss"
    by (auto simp: get_next_available_slot_def split: list.splits)
  from sort_key_filter_hd [OF this] show ?thesis by auto
qed

lemma book_ok:
  "slot_ok s \<Longrightarrow> current_bookings s < max_capacity s \<Longrightarrow> slot_ok (book s)"
  by (auto simp: slot_ok_def flag_derived_def book_def Let_def)

lemma book_fields [simp]:
  "slot_id (book s) = slot_id s" "slot_date (book s) = slot_date s"
  "max_capacity (book s) = max_capacity s" "current_bookings (book s) = current_bookings s + 1"
  by (simp_all add: book_def Let_def)

lemma save_slot_ids [simp]: "map slot_id (save_slot s rows) = map slot_id rows"
  by (induction rows) (auto simp: save_slot_def)

lemma slot_id_unique:
  "distinct (map slot_id rows) \<Longrightarrow> x \<in> set rows \<Longrightarrow> s \<in> set rows \<Longrightarrow>
   slot_id x = slot_id s \<Longrightarrow> x = s"
  by (auto simp: distinct_map dest: inj_onD)

lemma save_slot_dates:
  assumes "s \<in> set rows" "slot_id s' = slot_id s" "slot_date s' = slot_date s"
    "distinct (map slot_id rows)"
  shows "map slot_date (save_slot s' rows) = map slot_date rows"
proof -
  have "\<forall>x \<in> set rows. slot_date (if slot_id x = slot_id s' then s' else x) = slot_date x"
    using assms slot_id_unique [OF assms(4) _ assms(1)] by auto
  then show ?thesis
    by (simp add: save_slot_def)
qed

lemma save_slot_all:
  "list_all P rows \<Longrightarrow> P s' \<Longrightarrow> list_all P (save_slot s' rows)"
  by (induction rows) (auto simp: save_slot_def)

lemma save_slot_sum:
  fixes g :: "available_slot \<Rightarrow> 'a::comm_monoid_add"
  assumes "distinct (map slot_id rows)" "s \<in> set rows" "slot_id s' = slot_id s"
  shows "sum_list (map g (save_slot s' rows)) + g s = sum_list (map g rows) + g s'"
  using assms
proof (induction rows)
  case Nil
  then show ?case by simp
next
  case (Cons r rows)
  show ?case
  proof (cases "r = s")
    case True
    then have "slot_id s \<notin> slot_id ` set rows"
      using Cons.prems(1) by simp
    then have "save_slot s' rows = rows"
      unfolding save_slot_def using Cons.prems(3) by (intro map_idI) (auto simp: image_iff)
    then show ?thesis
      using True Cons.prems(3) by (simp add: save_slot_def ac_simps)
  next
    case False
    then have mem: "s \<in> set rows"
      using Cons.prems(2) by simp
    then have "slot_id r \<noteq> slot_id s"
      using Cons.prems(1) by (auto simp: rev_image_eqI)
    moreover have "sum_list (map g (save_slot s' rows)) + g s = sum_list (map g rows) + g s'"
      using Cons.IH Cons.prems mem by simp
    ultimately show ?thesis
      using Cons.prems(3) by (simp add: save_slot_def add.assoc)
  qed
qed

lemma schedule_pool_ok:
  assumes "pool_ok (slots db)" "schedule_appointment now sid rid docs db = (res, db')"
  shows "pool_ok (slots db')"
proof (cases "get_next_available_slot now db")
  case None
  then show ?thesis using assms by (simp add: schedule_appointment_def commit_appointment_def)
next
  case (Some s)
  from get_next_Some_mem [OF Some] have m: "s \<in> set (slots db)" "slot_filter now s" by auto
  then have "slot_ok s" using assms(1) by (auto simp: pool_ok_def list_all_iff)
  then have "slot_ok (book s)" using m(2) by (intro book_ok) (auto simp: slot_filter_def)
  moreover have "slots db' = save_slot (book s) (slots db)"
    using assms(2) Some by (auto simp: schedule_appointment_def commit_appointment_def Let_def)
  ultimately show ?thesis
    using assms(1) by (simp add: pool_ok_def save_slot_all)
qed

lemma remaining_zero_iff:
  "remaining_capacity now rows = 0 \<longleftrightarrow> \<not> list_ex (free_slot now) rows"
  by (induction rows) (auto simp: remaining_capacity_def free_slot_def)

lemma same_future_dates:
  assumes "map slot_date rows' = map slot_date rows"
  shows "same_future now rows' t = same_future now rows t"
proof -
  have img: "slot_date ` set rows' = slot_date ` set rows"
    using assms by (metis list.set_map)
  have *: "same_future now r t = (\<forall>d \<in> slot_date ` set r. (t < d) = (now < d))" for r
    by (simp add: same_future_def list_all_iff)
  show ?thesis
    unfolding * img by (rule refl)
qed

lemma slot_filter_same_future:
  assumes "pool_ok rows" "same_future now rows t" "s \<in> set rows"
  shows "slot_filter t s \<longleftrightarrow> free_slot now s"
  using assms
  by (auto simp: pool_ok_def same_future_def list_all_iff slot_ok_def flag_derived_def
        slot_filter_def free_slot_def)

lemma get_next_None_remaining:
  assumes "pool_ok (slots db)" "same_future now (slots db) t"
  shows "get_next_available_slot t db = None \<longleftrightarrow> remaining_capacity now (slots db) = 0"
proof -
  have "filter (slot_filter t) (slots db) = filter (free_slot now) (slots db)"
    using assms by (intro filter_cong) (auto simp: slot_filter_same_future)
  then show ?thesis
    by (simp add: get_next_None_iff remaining_zero_iff filter_empty_conv list_ex_iff)
qed

lemma schedule_None:
  assumes "get_next_available_slot t db = None"
  shows "schedule_appointment t sid rid docs db = (None, db)"
  using assms by (simp add: schedule_appointment_def commit_appointment_def)

lemma schedule_Some:
  assumes "get_next_available_slot t db = Some s"
  shows "fst (schedule_appointment t sid rid docs db) \<noteq> None \<and>
         slots (snd (schedule_appointment t sid rid docs db)) = save_slot (book s) (slots db)"
  using assms by (simp add: schedule_appointment_def commit_appointment_def Let_def)

lemma schedule_dates:
  assumes "pool_ok (slots db)"
  shows "map slot_date (slots (snd (schedule_appointment t sid rid docs db))) = map slot_date (slots db)"
proof (cases "get_next_available_slot t db")
  case None
  then show ?thesis by (simp add: schedule_None)
next
  case (Some s)
  from get_next_Some_mem [OF Some] have "s \<in> set (slots db)" by simp
  then have "map slot_date (save_slot (book s) (slots db)) = map slot_date (slots db)"
    using assms by (intro save_slot_dates [of s]) (auto simp: pool_ok_def)
  then show ?thesis
    using schedule_Some [OF Some] by simp
qed

lemma schedule_remaining:
  assumes "pool_ok (slots db)" "same_future now (slots db) t"
    "get_next_available_slot t db = Some s"
  shows "Suc (remaining_capacity now (slots (snd (schedule_appointment t sid rid docs db)))) =
         remaining_capacity now (slots db)"
proof -
  define G :: "available_slot \<Rightarrow> nat" where "G = (\<lambda>s. if now < slot_date s then nat (max_capacity s - current_bookings s) else 0)"
  from get_next_Some_mem [OF assms(3)] have m: "s \<in> set (slots db)" "slot_filter t s" by auto
  then have f: "free_slot now s"
    using assms by (simp add: slot_filter_same_future)
  have e: "sum_list (map G (save_slot (book s) (slots db))) + G s =
        sum_list (map G (slots db)) + G (book s)"
    using assms(1) m(1) by (intro save_slot_sum) (auto simp: pool_ok_def)
  have g: "G s = Suc (G (book s))"
    using f by (auto simp: free_slot_def G_def)
  have "Suc (sum_list (map G (save_slot (book s) (slots db)))) = sum_list (map G (slots db))"
    using e g by linarith
  moreover have "remaining_capacity now rows = sum_list (map G rows)" for rows
    by (simp add: remaining_capacity_def G_def)
  ultimately show ?thesis
    using schedule_Some [OF assms(3), of sid rid docs] by simp
qed

lemma schedule_all_count:
  assumes "pool_ok (slots db)" "list_all (\<lambda>a. same_future now (slots db) (fst a)) atts"
  shows "pool_ok (slots (snd (schedule_all atts db))) \<and>
         length (filter (\<lambda>r. r \<noteq> None) (fst (schedule_all atts db))) =
           min (length atts) (remaining_capacity now (slots db))"
  using assms
proof (induction atts arbitrary: db)
  case Nil
  then show ?case by simp
next
  case (Cons a atts)
  obtain t sid rid docs where a: "a = (t, sid, rid, docs)"
    by (cases a) auto
  let ?step = "schedule_appointment t sid rid docs db"
  have sf: "same_future now (slots db) t"
    using Cons.prems(2) a by simp
  have ok: "pool_ok (slots (snd ?step))"
    using Cons.prems(1) by (rule schedule_pool_ok [of db t sid rid docs "fst ?step"]) simp
  have dates: "map slot_date (slots (snd ?step)) = map slot_date (slots db)"
    using Cons.prems(1) by (rule schedule_dates)
  have rest: "list_all (\<lambda>a. same_future now (slots (snd ?step)) (fst a)) atts"
    using Cons.prems(2) by (simp add: same_future_dates [OF dates])
  note ih = Cons.IH [OF ok rest]
  have unfold: "schedule_all (a # atts) db =
      (fst ?step # fst (schedule_all atts (snd ?step)), snd (schedule_all atts (snd ?step)))"
    by (simp add: a split: prod.splits)
  show ?case
  proof (cases "get_next_available_slot t db")
    case None
    then have z: "remaining_capacity now (slots db) = 0"
      using Cons.prems(1) sf by (simp add: get_next_None_remaining)
    have "?step = (None, db)"
      using None by (rule schedule_None)
    then show ?thesis
      using ih z unfold by simp
  next
    case (Some s)
    have r: "Suc (remaining_capacity now (slots (snd ?step))) = remaining_capacity now (slots db)"
      using Cons.prems(1) sf Some by (rule schedule_remaining)
    have "fst ?step \<noteq> None"
      using schedule_Some [OF Some] by simp
    then show ?thesis
      using ih r unfold by auto
  qed
qed

lemma sum_single_slot:
  fixes h :: "available_slot \<Rightarrow> int"
  assumes "distinct (map slot_id rows)" "s \<in> set rows"
  shows "sum_list (map (\<lambda>r. if slot_id r = slot_id s then h r else 0) rows) = h s"
  using assms
proof (induction rows)
  case Nil
  then show ?case by simp
next
  case (Cons r rows)
  show ?case
  proof (cases "r = s")
    case True
    then have "\<forall>x \<in> set rows. slot_id x \<noteq> slot_id s"
      using Cons.prems(1) by (auto simp: image_iff)
    then have "sum_list (map (\<lambda>r. if slot_id r = slot_id s then h r else 0) rows) = 0"
      by (induction rows) auto
    then show ?thesis using True by simp
  next
    case False
    then have mem: "s \<in> set rows" using Cons.prems(2) by simp
    then have "slot_id r \<noteq> slot_id s"
      using Cons.prems(1) by (auto simp: rev_image_eqI)
    then show ?thesis
      using Cons.IH Cons.prems(1) mem by simp
  qed
qed

lemma schedule_ids:
  "map slot_id (slots (snd (schedule_appointment t sid rid docs db))) = map slot_id (slots db)"
proof (cases "get_next_available_slot t db")
  case None
  then show ?thesis by (simp add: schedule_None)
next
  case (Some s)
  then show ?thesis using schedule_Some [OF Some, of sid rid docs] by simp
qed

lemma schedule_field_sum:
  fixes h :: "available_slot \<Rightarrow> int"
  assumes "pool_ok (slots db)"
  shows "sum_list (map (\<lambda>r. if slot_id r = i then h r else 0)
           (slots (snd (schedule_appointment t sid rid docs db)))) =
         sum_list (map (\<lambda>r. if slot_id r = i then h r else 0) (slots db)) +
         (case get_next_available_slot t db of
            None \<Rightarrow> 0
          | Some s \<Rightarrow> if slot_id s = i then h (book s) - h s else 0)"
proof (cases "get_next_available_slot t db")
  case None
  then show ?thesis by (simp add: schedule_None)
next
  case (Some s)
  define G :: "available_slot \<Rightarrow> int" where "G = (\<lambda>r. if slot_id r = i then h r else 0)"
  from get_next_Some_mem [OF Some] have m: "s \<in> set (slots db)" by simp
  have e: "sum_list (map G (save_slot (book s) (slots db))) + G s =
        sum_list (map G (slots db)) + G (book s)"
    using assms m by (intro save_slot_sum) (auto simp: pool_ok_def)
  have g: "G (book s) - G s = (if slot_id s = i then h (book s) - h s else 0)"
    by (simp add: G_def)
  have "sum_list (map G (save_slot (book s) (slots db))) =
        sum_list (map G (slots db)) + (if slot_id s = i then h (book s) - h s else 0)"
    using e g by linarith
  then show ?thesis
    using schedule_Some [OF Some, of sid rid docs] Some by (simp add: G_def)
qed

lemma booked_slots_sums:
  assumes "pool_ok (slots db)"
  shows "map slot_id (slots (snd (schedule_all atts db))) = map slot_id (slots db) \<and>
         sum_list (map (\<lambda>r. if slot_id r = i then current_bookings r else 0)
           (slots (snd (schedule_all atts db)))) =
         sum_list (map (\<lambda>r. if slot_id r = i then current_bookings r else 0) (slots db)) +
           int (count_list (booked_slots atts db) i) \<and>
         sum_list (map (\<lambda>r. if slot_id r = i then max_capacity r else 0)
           (slots (snd (schedule_all atts db)))) =
         sum_list (map (\<lambda>r. if slot_id r = i then max_capacity r else 0) (slots db)) \<and>
         length (booked_slots atts db) =
           length (filter (\<lambda>r. r \<noteq> None) (fst (schedule_all atts db)))"
  using assms
proof (induction atts arbitrary: db)
  case Nil
  then show ?case by simp
next
  case (Cons a atts)
  obtain t sid rid docs where a: "a = (t, sid, rid, docs)"
    by (cases a) auto
  let ?step = "schedule_appointment t sid rid docs db"
  have ok: "pool_ok (slots (snd ?step))"
    using Cons.prems(1) by (rule schedule_pool_ok [of db t sid rid docs "fst ?step"]) simp
  note ih = Cons.IH [OF ok]
  have unfold: "schedule_all (a # atts) db =
      (fst ?step # fst (schedule_all atts (snd ?step)), snd (schedule_all atts (snd ?step)))"
    by (simp add: a split: prod.splits)
  have b: "sum_list (map (\<lambda>r. if slot_id r = i then current_bookings r else 0) (slots (snd ?step))) =
         sum_list (map (\<lambda>r. if slot_id r = i then current_bookings r else 0) (slots db)) +
         (case get_next_available_slot t db of
            None \<Rightarrow> 0
          | Some s \<Rightarrow> if slot_id s = i then current_bookings (book s) - current_bookings s else 0)"
    using Cons.prems(1) by (rule schedule_field_sum)
  have c: "sum_list (map (\<lambda>r. if slot_id r = i then max_capacity r else 0) (slots (snd ?step))) =
         sum_list (map (\<lambda>r. if slot_id r = i then max_capacity r else 0) (slots db)) +
         (case get_next_available_slot t db of
            None \<Rightarrow> 0
          | Some s \<Rightarrow> if slot_id s = i then max_capacity (book s) - max_capacity s else 0)"
    using Cons.prems(1) by (rule schedule_field_sum)
  show ?case
  proof (cases "get_next_available_slot t db")
    case None
    have "?step = (None, db)"
      using None by (rule schedule_None)
    then show ?thesis
      using ih unfold None a by simp
  next
    case (Some s)
    have n: "fst ?step \<noteq> None"
      using schedule_Some [OF Some] by simp
    have bk: "booked_slots (a # atts) db = slot_id s # booked_slots atts (snd ?step)"
      using Some by (simp add: a)
    show ?thesis
      unfolding unfold bk using ih b c n Some by (simp add: schedule_ids)
  qed
qed

lemma schedule_all_pool_ok:
  assumes "pool_ok (slots db)"
  shows "pool_ok (slots (snd (schedule_all atts db)))"
  using assms
proof (induction atts arbitrary: db)
  case Nil
  then show ?case by simp
next
  case (Cons a atts)
  obtain t sid rid docs where a: "a = (t, sid, rid, docs)"
    by (cases a) auto
  let ?step = "schedule_appointment t sid rid docs db"
  have ok: "pool_ok (slots (snd ?step))"
    using Cons.prems(1) by (rule schedule_pool_ok [of db t sid rid docs "fst ?step"]) simp
  have "snd (schedule_all (a # atts) db) = snd (schedule_all atts (snd ?step))"
    by (simp add: a split: prod.splits)
  then show ?case
    using Cons.IH [OF ok] by simp
qed

lemma booked_slots_bound:
  assumes "pool_ok (slots db)" "s \<in> set (slots db)"
  shows "current_bookings s + int (count_list (booked_slots atts db) (slot_id s)) \<le> max_capacity s"
proof -
  let ?final = "slots (snd (schedule_all atts db))"
  have ok: "pool_ok ?final"
    using assms(1) by (rule schedule_all_pool_ok)
  from booked_slots_sums [OF assms(1), of atts "slot_id s"]
  have ids: "map slot_id ?final = map slot_id (slots db)"
    and b: "sum_list (map (\<lambda>r. if slot_id r = slot_id s then current_bookings r else 0) ?final) =
         sum_list (map (\<lambda>r. if slot_id r = slot_id s then current_bookings r else 0) (slots db)) +
           int (count_list (booked_slots atts db) (slot_id s))"
    and c: "sum_list (map (\<lambda>r. if slot_id r = slot_id s then max_capacity r else 0) ?final) =
         sum_list (map (\<lambda>r. if slot_id r = slot_id s then max_capacity r else 0) (slots db))"
    by simp_all
  have "slot_id s \<in> set (map slot_id ?final)"
    using assms(2) ids by simp
  then obtain s' where s': "s' \<in> set ?final" "slot_id s' = slot_id s"
    by auto
  have d: "distinct (map slot_id (slots db))" "distinct (map slot_id ?final)"
    using assms(1) ok by (simp_all add: pool_ok_def)
  have b0: "sum_list (map (\<lambda>r. if slot_id r = slot_id s then current_bookings r else 0) (slots db)) =
        current_bookings s"
    using d(1) assms(2) by (rule sum_single_slot)
  have c0: "sum_list (map (\<lambda>r. if slot_id r = slot_id s then max_capacity r else 0) (slots db)) =
        max_capacity s"
    using d(1) assms(2) by (rule sum_single_slot)
  have b1: "sum_list (map (\<lambda>r. if slot_id r = slot_id s then current_bookings r else 0) ?final) =
        current_bookings s'"
    using sum_single_slot [OF d(2) s'(1), of current_bookings] s'(2) by simp
  have c1: "sum_list (map (\<lambda>r. if slot_id r = slot_id s then max_capacity r else 0) ?final) =
        max_capacity s'"
    using sum_single_slot [OF d(2) s'(1), of max_capacity] s'(2) by simp
  have "current_bookings s' \<le> max_capacity s'"
    using ok s'(1) by (auto simp: pool_ok_def list_all_iff slot_ok_def)
  then show ?thesis
    using b c b0 c0 b1 c1 by linarith
qed

text \<open>
  Calls made one after the other. In a pool that the allocator keeps, for any sequence of
  calls of \<open>schedule_appointment\<close>, each made after the one before has committed, at
  times at which the same slots lie in the future: after any number \<open>n\<close> of the calls
  every slot has \<open>current_bookings \<le> max_capacity\<close>; the number of calls that return
  an appointment is the smaller of the number of calls and the places left in the future
  slots; and no two calls book the same slot of capacity 1.
\<close>

theorem schedule_all_capacity:
  assumes "pool_ok (slots db)"
    and "list_all (\<lambda>a. same_future now (slots db) (fst a)) atts"
  shows "list_all (\<lambda>s. current_bookings s \<le> max_capacity s)
           (slots (snd (schedule_all (take n atts) db))) \<and>
         length (filter (\<lambda>r. r \<noteq> None) (fst (schedule_all atts db))) =
           min (length atts) (remaining_capacity now (slots db)) \<and>
         list_all (\<lambda>s. max_capacity s = 1 \<longrightarrow> count_list (booked_slots atts db) (slot_id s) \<le> 1)
           (slots db)"
proof (intro conjI)
  have "pool_ok (slots (snd (schedule_all (take n atts) db)))"
    using assms(1) by (rule schedule_all_pool_ok)
  then show "list_all (\<lambda>s. current_bookings s \<le> max_capacity s)
               (slots (snd (schedule_all (take n atts) db)))"
    by (auto simp: pool_ok_def list_all_iff slot_ok_def)
next
  show "length (filter (\<lambda>r. r \<noteq> None) (fst (schedule_all atts db))) =
           min (length atts) (remaining_capacity now (slots db))"
    using schedule_all_count [OF assms] by simp
next
  show "list_all (\<lambda>s. max_capacity s = 1 \<longrightarrow> count_list (booked_slots atts db) (slot_id s) \<le> 1)
           (slots db)"
    unfolding list_all_iff
  proof (intro ballI impI)
    fix s
    assume s: "s \<in> set (slots db)" and c: "max_capacity s = 1"
    have "0 \<le> current_bookings s"
      using assms(1) s by (auto simp: pool_ok_def list_all_iff slot_ok_def)
    then show "count_list (booked_slots atts db) (slot_id s) \<le> 1"
      using booked_slots_bound [OF assms(1) s, of atts] c by linarith
  qed
qed

text \<open>Three calls on the example pool, which has two places left: two succeed.\<close>

theorem schedule_all_capacity_witness:
  "pool_ok (slots example_db) \<and>
   list_all (\<lambda>a. same_future 3600 (slots example_db) (fst a)) example_attempts \<and>
   remaining_capacity 3600 (slots example_db) = 2 \<and>
   length (filter (\<lambda>r. r \<noteq> None) (fst (schedule_all example_attempts example_db))) = 2"
proof -
  have h1: "pool_ok (slots example_db)"
    by code_simp
  have h2: "list_all (\<lambda>a. same_future 3600 (slots example_db) (fst a)) example_attempts"
    by code_simp
  have r: "remaining_capacity 3600 (slots example_db) = 2"
    by code_simp
  have l: "length example_attempts = 3"
    by code_simp
  show ?thesis
    using h1 h2 r l schedule_all_capacity [OF h1 h2] by simp
qed

subsection \<open>Concurrent allocations\<close>

text \<open>
  C2 does not hold of the code. Two tasks call \<open>schedule_appointment\<close> on a pool whose
  only slot has the capacity 1 and no booking, and both make the query before either
  commits: both calls return an appointment for that slot, so two allocations succeed
  where one place was left, and the slot ends with the booking count 1.
\<close>

theorem interleaved_allocations_both_succeed:
  "pool_ok (slots single_slot_db) \<and>
   map max_capacity (slots single_slot_db) = [1] \<and>
   remaining_capacity 3600 (slots single_slot_db) = 1 \<and>
   (case schedule_interleaved (3600, 1, 1, JArr []) (3600, 2, 2, JArr []) single_slot_db of
      (result1, result2, db') \<Rightarrow>
        map_option appointment_date result1 = Some 86400 \<and>
        map_option appointment_date result2 = Some 86400 \<and>
        map_option appointment_time result1 = Some ''09:00'' \<and>
        map_option appointment_time result2 = Some ''09:00'' \<and>
        map appointment_request_id (appointments db') = [1, 2] \<and>
        map current_bookings (slots db') = [1])"
  by code_simp

subsection \<open>The creation of slots\<close>

text \<open>\<open>create_available_slots\<close>, the other writer of the table, keeps the pool too.\<close>

lemma fold_max_ge: "a \<le> fold max ids (a :: nat)"
  by (induction ids arbitrary: a) (auto intro: order_trans [OF max.cobounded2])

lemma fold_max_mem: "x \<in> set ids \<Longrightarrow> x \<le> fold max ids (a :: nat)"
proof (induction ids arbitrary: a)
  case Nil
  then show ?case by simp
next
  case (Cons i ids)
  show ?case
  proof (cases "x = i")
    case True
    have "max i a \<le> fold max ids (max i a)" by (rule fold_max_ge)
    then show ?thesis using True by simp
  next
    case False
    then show ?thesis using Cons by simp
  qed
qed

lemma next_id_fresh: "next_id ids \<notin> set ids"
  using fold_max_mem [of "next_id ids" ids 0] by (auto simp: next_id_def)

lemma create_slot_pool_ok:
  assumes "pool_ok rows"
  shows "pool_ok (create_slot d t rows)"
  using assms next_id_fresh [of "map slot_id rows"]
  by (auto simp: create_slot_def pool_ok_def slot_ok_def flag_derived_def split: option.splits)

lemma fold_create_slot_pool_ok:
  "pool_ok rows \<Longrightarrow> pool_ok (fold (create_slot d) ts rows)"
  by (induction ts arbitrary: rows) (auto simp: create_slot_pool_ok)

lemma create_available_slots_pool_ok:
  assumes "pool_ok (slots db)"
  shows "pool_ok (slots (create_available_slots start n k db))"
proof -
  have "pool_ok rows \<Longrightarrow>
        pool_ok (fold (\<lambda>day rows. fold (create_slot (start + 86400 * of_nat day)) (take k time_slots) rows)
                  days rows)" for days rows
    by (induction days arbitrary: rows) (auto simp: fold_create_slot_pool_ok)
  then show ?thesis
    using assms by (simp add: create_available_slots_def)
qed

subsection \<open>The statuses of a request\<close>

lemma remdups_adj_hd: "\<exists>ws. remdups_adj (x # zs) = x # ws"
  by (metis remdups_adj_Cons_alt)

lemma remdups_adj_prefix: "prefix (remdups_adj xs) (remdups_adj (xs @ zs))"
proof (induction xs rule: remdups_adj.induct)
  case 1
  then show ?case by simp
next
  case (2 x)
  obtain ws where "remdups_adj (x # zs) = x # ws"
    using remdups_adj_hd [of x zs] by blast
  then show ?case by simp
next
  case (3 x y xs)
  then show ?case by (cases "x = y") auto
qed

lemma status_history_take:
  "prefix (status_history rid (take n committed)) (status_history rid committed)"
proof -
  define f :: "database \<Rightarrow> request_status list" where "f = (\<lambda>db. map status (filter (\<lambda>r. request_id r = rid) (requests db)))"
  have "concat (map f committed) =
        concat (map f (take n committed)) @ concat (map f (drop n committed))"
    by (metis append_take_drop_id concat_append map_append)
  then have "prefix (remdups_adj (concat (map f (take n committed))))
                    (remdups_adj (concat (map f committed)))"
    by (simp add: remdups_adj_prefix)
  then show ?thesis
    by (simp add: status_history_def f_def)
qed

lemma new_request_id_fresh:
  "x \<in> set (requests db) \<Longrightarrow> request_id x \<noteq> new_request_id db"
  using next_id_fresh [of "map request_id (requests db)"]
  by (metis new_request_id_def image_eqI list.set_map)

lemma filter_fresh:
  "filter (\<lambda>r. request_id r = new_request_id db) (requests db) = []"
  by (auto simp: filter_empty_conv new_request_id_fresh)

lemma filter_save_request:
  assumes "request_id r' = rid"
  shows "filter (\<lambda>r. request_id r = rid) (requests (save_request r' X)) =
         map (\<lambda>_. r') (filter (\<lambda>r. request_id r = rid) (requests X))"
proof -
  have "filter (\<lambda>r. request_id r = rid) (map (\<lambda>row. if request_id row = rid then r' else row) rows) =
        map (\<lambda>_. r') (filter (\<lambda>r. request_id r = rid) rows)" for rows
    using assms by (induction rows) auto
  then show ?thesis
    using assms by (simp add: save_request_def)
qed

lemma schedule_requests:
  "requests (snd (schedule_appointment t a b c db)) = requests db"
  by (simp add: schedule_appointment_def commit_appointment_def Let_def split: option.splits)

lemma get_or_create_student_requests:
  "get_or_create_student s db = (stud, db0, created) \<Longrightarrow> requests db0 = requests db"
  by (auto simp: get_or_create_student_def Let_def split: option.splits)

lemma categorize_fields [simp]:
  "request_id (categorize env req) = request_id req"
  "status (categorize env req) = status req"
  "is_compliant (categorize env req) = is_compliant req"
  "appointment_id (categorize env req) = appointment_id req"
  by (simp_all add: categorize_def Let_def split: sum.splits)

lemma allocate_history:
  assumes "filter (\<lambda>r. request_id r = rid) (requests db) = [q]" "request_id req = rid"
  shows "raw_history rid (snd (allocate env stud req rr db)) = [] \<or>
         raw_history rid (snd (allocate env stud req rr db)) = [status q, APPOINTMENT_SCHEDULED]"
proof -
  have "requests (snd (schedule_appointment (allocation_clock env) (student_pk stud) rid
          (get rr ''required_documents'' (JArr [])) db)) = requests db"
    by (rule schedule_requests)
  then show ?thesis
    using assms
    by (auto simp: allocate_def raw_history_def Let_def filter_save_request
          split: prod.splits option.splits)
qed

lemma evaluate_history:
  assumes "filter (\<lambda>r. request_id r = rid) (requests db) = [q]" "request_id req = rid"
  shows "raw_history rid (snd (evaluate env msg stud req dt db)) \<in>
           {[status req], [status req, CATEGORIZED],
            [status req, CATEGORIZED, CATEGORIZED, APPOINTMENT_SCHEDULED]}"
proof (cases "rag_outcome env (body msg) dt")
  case (Inl e)
  then show ?thesis
    using assms by (simp add: evaluate_def raw_history_def filter_save_request)
next
  case (Inr rr)
  define req1 where "req1 = req\<lparr>is_compliant := get rr ''is_compliant'' (JBool False),
                         compliance_score := get rr ''compliance_score'' (JNum 0),
                         missing_documents := Some (get rr ''missing_documents'' (JArr [])),
                         required_documents := Some (get rr ''required_documents'' (JArr []))\<rparr>"
  define req2 where "req2 = (categorize env req1)\<lparr>status := CATEGORIZED,
                                          processed_at := Some (processed_clock env)\<rparr>"
  define db1 where "db1 = save_request req1 db"
  define db2 where "db2 = save_request req2 db1"
  have ids: "request_id req1 = rid" "request_id req2 = rid"
    using assms(2) by (simp_all add: req1_def req2_def)
  have f1: "filter (\<lambda>r. request_id r = rid) (requests db1) = [req1]"
    using assms(1) ids by (simp add: db1_def filter_save_request)
  have f2: "filter (\<lambda>r. request_id r = rid) (requests db2) = [req2]"
    using f1 ids by (simp add: db2_def filter_save_request)
  have ev: "snd (evaluate env msg stud req dt db) = [db1, db2] @ snd (allocate env stud req2 rr db2)"
    using Inr by (simp add: evaluate_def Let_def req1_def req2_def db1_def db2_def split: prod.splits)
  have st: "status req1 = status req" "status req2 = CATEGORIZED"
    by (simp_all add: req1_def req2_def)
  have "raw_history rid (snd (evaluate env msg stud req dt db)) =
        [status req, CATEGORIZED] @ raw_history rid (snd (allocate env stud req2 rr db2))"
    unfolding ev using f1 f2 st by (simp add: raw_history_def)
  then show ?thesis
    using allocate_history [OF f2 ids(2), of env stud rr] st by auto
qed

lemma process_history:
  "raw_history (new_request_id db) (snd (process_email_task env msg db)) \<in>
     {[], [PENDING, PENDING, PROCESSING, PROCESSING],
      [PENDING, PENDING, PROCESSING, PROCESSING, CATEGORIZED],
      [PENDING, PENDING, PROCESSING, PROCESSING, CATEGORIZED, CATEGORIZED,
       APPOINTMENT_SCHEDULED]}"
proof (cases "find_duplicate (utc_offset env) (dedup_clock env) (subject msg) db")
  case (Some a)
  then show ?thesis by (simp add: process_email_task_def raw_history_def)
next
  case None
  show ?thesis
  proof (cases "services_error env")
    case (Some e)
    then show ?thesis using None by (simp add: process_email_task_def raw_history_def)
  next
    case noerr: None
    obtain stud db0 created where g: "get_or_create_student (sender msg) db = (stud, db0, created)"
      by (cases "get_or_create_student (sender msg) db") auto
    have r0: "requests db0 = requests db"
      using g by (rule get_or_create_student_requests)
    then have id0: "new_request_id db0 = new_request_id db"
      by (simp add: new_request_id_def)
    define rid where "rid = new_request_id db"
    define req where "req = new_request env msg stud db0"
    define db1 where "db1 = db0\<lparr>requests := requests db0 @ [req]\<rparr>"
    define dt where "dt = fst (process_attachments (request_id req) (attachments msg))"
    define rows where "rows = snd (process_attachments (request_id req) (attachments msg))"
    define db2 where "db2 = db1\<lparr>documents := documents db1 @ rows\<rparr>"
    define req3 where "req3 = req\<lparr>status := PROCESSING\<rparr>"
    define db3 where "db3 = save_request req3 db2"
    have ids: "request_id req = rid" "request_id req3 = rid"
      by (simp_all add: req_def req3_def new_request_def id0 rid_def)
    have st: "status req = PENDING" "status req3 = PROCESSING"
      by (simp_all add: req_def req3_def new_request_def)
    have f0: "filter (\<lambda>r. request_id r = rid) (requests db0) = []"
      unfolding r0 rid_def by (rule filter_fresh)
    have f1: "filter (\<lambda>r. request_id r = rid) (requests db1) = [req]"
      using f0 ids by (simp add: db1_def)
    have f2: "filter (\<lambda>r. request_id r = rid) (requests db2) = [req]"
      using f1 by (simp add: db2_def)
    have f3: "filter (\<lambda>r. request_id r = rid) (requests db3) = [req3]"
      using f2 ids by (simp add: db3_def filter_save_request)
    have run: "snd (process_email_task env msg db) =
        (if created then [db0] else []) @ [db1, db2, db3] @ snd (evaluate env msg stud req3 dt db3)"
      using None noerr g
      by (simp add: process_email_task_def Let_def req_def db1_def dt_def rows_def db2_def
            req3_def db3_def split: prod.splits)
    have "raw_history rid (snd (process_email_task env msg db)) =
          [PENDING, PENDING, PROCESSING] @ raw_history rid (snd (evaluate env msg stud req3 dt db3))"
      unfolding run using f0 f1 f2 f3 st by (simp add: raw_history_def)
    then show ?thesis
      using evaluate_history [OF f3 ids(2), of env msg stud dt] st by (auto simp: rid_def)
  qed
qed

text \<open>
  C8. For every run of \<open>process_email_task\<close>, whatever the collaborators return or
  raise, and for every number \<open>n\<close> of commits after which the run may stop, the
  statuses that the request of the run passes through are a prefix of pending,
  processing, categorized, appointment\_scheduled.
\<close>

theorem status_sequence_is_prefix:
  "prefix (status_history (new_request_id db) (take n (snd (process_email_task env msg db))))
     pipeline_states"
proof -
  have "status_history rid committed = remdups_adj (raw_history rid committed)" for rid committed
    by (simp add: status_history_def raw_history_def)
  then have "prefix (status_history (new_request_id db) (snd (process_email_task env msg db)))
               pipeline_states"
    using process_history [of db env msg] by (auto simp: pipeline_states_def)
  then show ?thesis
    using status_history_take prefix_order.trans by blast
qed

subsection \<open>A compliant request without a free slot\<close>

lemma save_request_ids [simp]:
  "map request_id (requests (save_request r X)) = map request_id (requests X)"
  by (simp add: save_request_def comp_def cong: map_cong)

lemma save_request_other [simp]:
  "slots (save_request r X) = slots X" "appointments (save_request r X) = appointments X"
  by (simp_all add: save_request_def)

lemma get_or_create_student_other:
  "get_or_create_student s db = (stud, db0, created) \<Longrightarrow>
   slots db0 = slots db \<and> appointments db0 = appointments db"
  by (auto simp: get_or_create_student_def Let_def split: option.splits)

lemma filter_single_find:
  "filter P xs = [r] \<Longrightarrow> find P xs = Some r"
  by (induction xs) (auto split: if_splits)

lemma full_pool_no_slot:
  assumes "list_all (\<lambda>s. now < slot_date s \<longrightarrow> current_bookings s = max_capacity s) (slots db)"
  shows "get_next_available_slot now db = None"
  using assms by (auto simp: get_next_None_iff filter_empty_conv list_all_iff slot_filter_def)

lemma get_next_slots_cong:
  "slots db' = slots db \<Longrightarrow> get_next_available_slot now db' = get_next_available_slot now db"
  by (simp add: get_next_available_slot_def)

lemma evaluate_no_slot:
  assumes f: "filter (\<lambda>r. request_id r = rid) (requests db) = [q]"
    and id: "request_id req = rid"
    and full: "get_next_available_slot (allocation_clock env) db = None"
  shows "\<exists>x. filter (\<lambda>r. request_id r = rid)
               (requests (last (snd (evaluate env msg stud req dt db)))) = [x] \<and>
             slots (last (snd (evaluate env msg stud req dt db))) = slots db \<and>
             appointments (last (snd (evaluate env msg stud req dt db))) = appointments db \<and>
             (is_compliant x \<noteq> is_compliant req \<longrightarrow>
                (\<exists>cat. fst (evaluate env msg stud req dt db) = Success rid cat False) \<and>
                status x = CATEGORIZED \<and> appointment_id x = appointment_id req)"
proof (cases "rag_outcome env (body msg) dt")
  case (Inl e)
  then show ?thesis
    using f id by (simp add: evaluate_def filter_save_request)
next
  case (Inr rr)
  define req1 where "req1 = req\<lparr>is_compliant := get rr ''is_compliant'' (JBool False),
                         compliance_score := get rr ''compliance_score'' (JNum 0),
                         missing_documents := Some (get rr ''missing_documents'' (JArr [])),
                         required_documents := Some (get rr ''required_documents'' (JArr []))\<rparr>"
  define req2 where "req2 = (categorize env req1)\<lparr>status := CATEGORIZED,
                                          processed_at := Some (processed_clock env)\<rparr>"
  define db1 where "db1 = save_request req1 db"
  define db2 where "db2 = save_request req2 db1"
  have ids: "request_id req1 = rid" "request_id req2 = rid"
    using id by (simp_all add: req1_def req2_def)
  have f1: "filter (\<lambda>r. request_id r = rid) (requests db1) = [req1]"
    using f ids by (simp add: db1_def filter_save_request)
  have f2: "filter (\<lambda>r. request_id r = rid) (requests db2) = [req2]"
    using f1 ids by (simp add: db2_def filter_save_request)
  have ev: "evaluate env msg stud req dt db =
        (fst (allocate env stud req2 rr db2), [db1, db2] @ snd (allocate env stud req2 rr db2))"
    using Inr by (simp add: evaluate_def Let_def req1_def req2_def db1_def db2_def split: prod.splits)
  have o2: "slots db2 = slots db" "appointments db2 = appointments db"
    by (simp_all add: db2_def db1_def)
  have none: "get_next_available_slot (allocation_clock env) db2 = None"
    using full get_next_slots_cong [OF o2(1), of "allocation_clock env"] by simp
  have al: "allocate env stud req2 rr db2 =
        (Success rid (case request_type req2 of None \<Rightarrow> ''None'' | Some t \<Rightarrow> str_request_type t) False, [])"
    using none ids by (simp add: allocate_def Let_def schedule_None)
  have l: "last (snd (evaluate env msg stud req dt db)) = db2"
    by (simp add: ev al)
  have fin: "status req2 = CATEGORIZED" "appointment_id req2 = appointment_id req"
    by (simp_all add: req2_def req1_def)
  show ?thesis
    unfolding l using f2 o2 fin by (simp add: ev al)
qed

text \<open>
  C7. When every slot with a date after the allocation time is full, and the request of
  the run is compliant in the last state the run commits, the allocator finds no slot
  (it returns nothing, it does not raise), the task succeeds without an appointment, no
  appointment row is added, and the request is left categorized with no appointment.
\<close>

theorem compliant_without_slot:
  assumes full: "list_all (\<lambda>s. allocation_clock env < slot_date s \<longrightarrow>
                             current_bookings s = max_capacity s) (slots db)"
    and run: "snd (process_email_task env msg db) \<noteq> []"
    and found: "find (\<lambda>r. request_id r = new_request_id db)
                  (requests (last (snd (process_email_task env msg db)))) = Some r"
    and compl: "is_compliant r = JBool True"
  shows "get_next_available_slot (allocation_clock env) (last (snd (process_email_task env msg db))) = None \<and>
         (\<exists>cat. fst (process_email_task env msg db) = Success (new_request_id db) cat False) \<and>
         appointments (last (snd (process_email_task env msg db))) = appointments db \<and>
         status r = CATEGORIZED \<and> appointment_id r = None"
proof -
  have nd: "find_duplicate (utc_offset env) (dedup_clock env) (subject msg) db = None"
    using run by (cases "find_duplicate (utc_offset env) (dedup_clock env) (subject msg) db")
      (simp_all add: process_email_task_def)
  have ne: "services_error env = None"
    using run nd by (cases "services_error env") (simp_all add: process_email_task_def)
  obtain stud db0 created where g: "get_or_create_student (sender msg) db = (stud, db0, created)"
    by (cases "get_or_create_student (sender msg) db") auto
  have r0: "requests db0 = requests db"
    using g by (rule get_or_create_student_requests)
  have o0: "slots db0 = slots db" "appointments db0 = appointments db"
    using get_or_create_student_other [OF g] by simp_all
  have id0: "new_request_id db0 = new_request_id db"
    using r0 by (simp add: new_request_id_def)
  define rid where "rid = new_request_id db"
  define req where "req = new_request env msg stud db0"
  define db1 where "db1 = db0\<lparr>requests := requests db0 @ [req]\<rparr>"
  define dt where "dt = fst (process_attachments (request_id req) (attachments msg))"
  define rows where "rows = snd (process_attachments (request_id req) (attachments msg))"
  define db2 where "db2 = db1\<lparr>documents := documents db1 @ rows\<rparr>"
  define req3 where "req3 = req\<lparr>status := PROCESSING\<rparr>"
  define db3 where "db3 = save_request req3 db2"
  let ?ev = "evaluate env msg stud req3 dt db3"
  have ids: "request_id req = rid" "request_id req3 = rid"
    by (simp_all add: req_def req3_def new_request_def id0 rid_def)
  have init: "is_compliant req3 = JBool False" "appointment_id req3 = None"
    by (simp_all add: req_def req3_def new_request_def)
  have f0: "filter (\<lambda>r. request_id r = rid) (requests db0) = []"
    unfolding r0 rid_def by (rule filter_fresh)
  have f3: "filter (\<lambda>r. request_id r = rid) (requests db3) = [req3]"
    using f0 ids by (simp add: db3_def db2_def db1_def filter_save_request)
  have o3: "slots db3 = slots db" "appointments db3 = appointments db"
    using o0 by (simp_all add: db3_def db2_def db1_def)
  have p: "process_email_task env msg db =
        (fst ?ev, (if created then [db0] else []) @ [db1, db2, db3] @ snd ?ev)"
    using nd ne g
    by (simp add: process_email_task_def Let_def req_def db1_def dt_def rows_def db2_def
          req3_def db3_def split: prod.splits)
  have ev_ne: "snd ?ev \<noteq> []"
    by (simp add: evaluate_def Let_def split: sum.splits prod.splits)
  then have l: "last (snd (process_email_task env msg db)) = last (snd ?ev)"
    by (simp add: p)
  have none3: "get_next_available_slot (allocation_clock env) db3 = None"
    using full_pool_no_slot [OF full] o3 by (simp add: get_next_slots_cong [of db3 db])
  from evaluate_no_slot [OF f3 ids(2) none3, of msg stud dt]
  obtain x where x: "filter (\<lambda>r. request_id r = rid) (requests (last (snd ?ev))) = [x]"
    and same: "slots (last (snd ?ev)) = slots db3" "appointments (last (snd ?ev)) = appointments db3"
    and imp: "is_compliant x \<noteq> is_compliant req3 \<longrightarrow>
                (\<exists>cat. fst ?ev = Success rid cat False) \<and>
                status x = CATEGORIZED \<and> appointment_id x = appointment_id req3"
    by blast
  have "x = r"
    using found filter_single_find [OF x] by (simp add: l rid_def)
  then have res: "\<exists>cat. fst ?ev = Success rid cat False"
    and fin: "status r = CATEGORIZED" "appointment_id r = appointment_id req3"
    using imp compl init(1) by simp_all
  have "get_next_available_slot (allocation_clock env) (last (snd ?ev)) = None"
    using none3 same(1) by (simp add: get_next_slots_cong [of "last (snd ?ev)" db3])
  moreover have "fst (process_email_task env msg db) = fst ?ev"
    by (simp add: p)
  ultimately show ?thesis
    unfolding l using res same fin o3 init(2) by (simp add: rid_def)
qed

text \<open>Bob's message, found compliant, on the pool without a free slot.\<close>

theorem compliant_without_slot_witness:
  "list_all (\<lambda>s. allocation_clock pipeline_env < slot_date s \<longrightarrow>
                  current_bookings s = max_capacity s) (slots full_db) \<and>
   fst (process_email_task pipeline_env bob_message full_db) =
     Success 1 ''RequestType.OTHER'' False \<and>
   appointments (last (snd (process_email_task pipeline_env bob_message full_db))) = []"
proof -
  let ?run = "process_email_task pipeline_env bob_message full_db"
  have h1: "list_all (\<lambda>s. allocation_clock pipeline_env < slot_date s \<longrightarrow>
                  current_bookings s = max_capacity s) (slots full_db)"
    by code_simp
  have h2: "snd ?run \<noteq> []"
    by code_simp
  have h3: "map_option is_compliant
              (find (\<lambda>r. request_id r = new_request_id full_db) (requests (last (snd ?run)))) =
            Some (JBool True)"
    by code_simp
  then obtain r where r: "find (\<lambda>r. request_id r = new_request_id full_db)
                            (requests (last (snd ?run))) = Some r"
    and c: "is_compliant r = JBool True"
    by auto
  have n: "new_request_id full_db = 1"
    by code_simp
  have a: "appointments full_db = []"
    by code_simp
  have f: "fst ?run = Success 1 ''RequestType.OTHER'' False"
    by code_simp
  show ?thesis
    using h1 f a compliant_without_slot [OF h1 h2 r c] by simp
qed

subsection \<open>The Dedup Gate\<close>











end
